theory Spec2Isabelle
  imports
    Complex_Main
    "HOL-Library.Char_ord"
    "HOL-Library.List_Lexorder"
    "HOL-Library.Product_Lexorder"
    "HOL-Library.Sublist"
    "HOL-Library.Multiset"
begin

section \<open>JavaScript numbers and strings\<close>

text \<open>
  Every number the calendar script computes with is an integer (years, months, day
  counts) or \<open>NaN\<close>, which an invalid Date gives for each of its parts. A number is
  modelled as an optional \<^typ>\<open>int\<close>, \<open>None\<close> for \<open>NaN\<close>: arithmetic on \<open>NaN\<close> gives
  \<open>NaN\<close>, and a comparison with \<open>NaN\<close> is false, so that a loop bounded by \<open>NaN\<close> does not
  run. The remainder operator \<^verbatim>\<open>%\<close> truncates towards zero: its result has the sign of
  the dividend. It is only applied to the divisor 7 here.
\<close>

type_synonym num = "int option"

definition num_add :: "num \<Rightarrow> num \<Rightarrow> num" where
  "num_add a b = (case (a, b) of (Some x, Some y) \<Rightarrow> Some (x + y) | _ \<Rightarrow> None)"

definition num_sub :: "num \<Rightarrow> num \<Rightarrow> num" where
  "num_sub a b = (case (a, b) of (Some x, Some y) \<Rightarrow> Some (x - y) | _ \<Rightarrow> None)"

definition js_rem :: "int \<Rightarrow> int \<Rightarrow> int" where
  "js_rem a b = sgn a * (\<bar>a\<bar> mod \<bar>b\<bar>)"

definition num_rem :: "num \<Rightarrow> int \<Rightarrow> num" where
  "num_rem a b = (case a of Some x \<Rightarrow> Some (js_rem x b) | None \<Rightarrow> None)"

text \<open>
  The values of the counter of a loop \<^verbatim>\<open>for (i = lo; i < hi; i++)\<close> and of a loop
  \<^verbatim>\<open>for (i = lo; i <= hi; i++)\<close>.
\<close>

definition loop_below :: "int \<Rightarrow> num \<Rightarrow> int list" where
  "loop_below lo hi = (case hi of None \<Rightarrow> [] | Some h \<Rightarrow> [lo .. h - 1])"

definition loop_upto :: "int \<Rightarrow> num \<Rightarrow> int list" where
  "loop_upto lo hi = (case hi of None \<Rightarrow> [] | Some h \<Rightarrow> [lo .. h])"

text \<open>\<^verbatim>\<open>Number.prototype.toString\<close>, and \<^verbatim>\<open>padStart\<close> with a one-character filler.\<close>

definition digit_char :: "nat \<Rightarrow> char" where
  "digit_char n = ''0123456789'' ! n"

fun digits :: "nat \<Rightarrow> string" where
  "digits n = (if n < 10 then [digit_char n] else digits (n div 10) @ [digit_char (n mod 10)])"

declare digits.simps [simp del]

definition toString :: "int \<Rightarrow> string" where
  "toString i = (if i < 0 then CHR ''-'' # digits (nat (- i)) else digits (nat i))"

definition num_toString :: "num \<Rightarrow> string" where
  "num_toString a = (case a of None \<Rightarrow> ''NaN'' | Some i \<Rightarrow> toString i)"

definition padStart :: "nat \<Rightarrow> char \<Rightarrow> string \<Rightarrow> string" where
  "padStart n c s = replicate (n - length s) c @ s"

text \<open>
  \<^verbatim>\<open>Array.prototype.filter\<close>: the elements are visited by increasing index and the ones the
  callback accepts are appended to the result array.
\<close>

fun filter_loop :: "('a \<Rightarrow> bool) \<Rightarrow> 'a list \<Rightarrow> 'a list \<Rightarrow> 'a list" where
  "filter_loop p [] kept = kept"
| "filter_loop p (x # xs) kept = filter_loop p xs (if p x then kept @ [x] else kept)"

definition Array_filter :: "('a \<Rightarrow> bool) \<Rightarrow> 'a list \<Rightarrow> 'a list" where
  "Array_filter p xs = filter_loop p xs []"

section \<open>The Date object\<close>

text \<open>
  The script builds dates with \<^verbatim>\<open>new Date(year, month, day)\<close> and reads them with
  \<^verbatim>\<open>getDay\<close>, \<^verbatim>\<open>getDate\<close>, \<^verbatim>\<open>getMonth\<close> and \<^verbatim>\<open>getFullYear\<close>, all in local time. The
  definitions follow the Date algorithms of the ECMAScript specification. A time value
  is a number of milliseconds since the start of 1 January 1970, UTC; a Date holds a
  time value of at most 8 640 000 000 000 000 either way, or is invalid.
\<close>

definition msPerDay :: int where
  "msPerDay = 86400000"

definition Day :: "int \<Rightarrow> int" where
  "Day t = t div msPerDay"

definition DaysInYear :: "int \<Rightarrow> int" where
  "DaysInYear y =
     (if y mod 4 \<noteq> 0 then 365
      else if y mod 100 \<noteq> 0 then 366
      else if y mod 400 \<noteq> 0 then 365
      else 366)"

definition DayFromYear :: "int \<Rightarrow> int" where
  "DayFromYear y =
     365 * (y - 1970) + (y - 1969) div 4 - (y - 1901) div 100 + (y - 1601) div 400"

text \<open>
  \<open>YearFromTime\<close> is the largest year that starts at or before the given time. It is
  found from the day number, by stepping down from an estimate to a year that starts
  early enough, then up to the last such year.
\<close>

function year_down :: "int \<Rightarrow> int \<Rightarrow> int" where
  "year_down y d = (if DayFromYear y \<le> d then y else year_down (y - 1) d)"
  by pat_completeness auto
termination
  by (relation "measure (\<lambda>(y, d). nat (DayFromYear y - d))")
     (simp_all add: DayFromYear_def)

function year_up :: "int \<Rightarrow> int \<Rightarrow> int" where
  "year_up y d = (if DayFromYear (y + 1) \<le> d then year_up (y + 1) d else y)"
  by pat_completeness auto
termination
  by (relation "measure (\<lambda>(y, d). nat (d + 1 - DayFromYear (y + 1)))")
     (simp_all add: DayFromYear_def)

declare year_down.simps [simp del] year_up.simps [simp del]

definition YearFromTime :: "int \<Rightarrow> int" where
  "YearFromTime t = year_up (year_down (1970 + Day t div 365) (Day t)) (Day t)"

definition InLeapYear :: "int \<Rightarrow> int" where
  "InLeapYear t = (if DaysInYear (YearFromTime t) = 366 then 1 else 0)"

definition DayWithinYear :: "int \<Rightarrow> int" where
  "DayWithinYear t = Day t - DayFromYear (YearFromTime t)"

definition MonthFromTime :: "int \<Rightarrow> int" where
  "MonthFromTime t =
     (let w = DayWithinYear t; l = InLeapYear t in
      if w < 31 then 0
      else if w < 59 + l then 1
      else if w < 90 + l then 2
      else if w < 120 + l then 3
      else if w < 151 + l then 4
      else if w < 181 + l then 5
      else if w < 212 + l then 6
      else if w < 243 + l then 7
      else if w < 273 + l then 8
      else if w < 304 + l then 9
      else if w < 334 + l then 10
      else 11)"

definition DateFromTime :: "int \<Rightarrow> int" where
  "DateFromTime t =
     (let w = DayWithinYear t; l = InLeapYear t; m = MonthFromTime t in
      if m = 0 then w + 1
      else if m = 1 then w - 30
      else if m = 2 then w - 58 - l
      else if m = 3 then w - 89 - l
      else if m = 4 then w - 119 - l
      else if m = 5 then w - 150 - l
      else if m = 6 then w - 180 - l
      else if m = 7 then w - 211 - l
      else if m = 8 then w - 242 - l
      else if m = 9 then w - 272 - l
      else if m = 10 then w - 303 - l
      else w - 333 - l)"

definition WeekDay :: "int \<Rightarrow> int" where
  "WeekDay t = (Day t + 4) mod 7"

text \<open>
  \<open>MakeDay\<close> carries a month outside 0..11 into the year and lets the day of the month
  run over freely (day 0 is the last day of the month before). \<open>DayFromMonth\<close> is the
  day within the year on which a month starts, the table \<open>MonthFromTime\<close> inverts.
\<close>

definition DayFromMonth :: "int \<Rightarrow> int \<Rightarrow> int" where
  "DayFromMonth l mn =
     (if mn = 0 then 0
      else if mn = 1 then 31
      else if mn = 2 then 59 + l
      else if mn = 3 then 90 + l
      else if mn = 4 then 120 + l
      else if mn = 5 then 151 + l
      else if mn = 6 then 181 + l
      else if mn = 7 then 212 + l
      else if mn = 8 then 243 + l
      else if mn = 9 then 273 + l
      else if mn = 10 then 304 + l
      else 334 + l)"

definition MakeDay :: "int \<Rightarrow> int \<Rightarrow> int \<Rightarrow> int" where
  "MakeDay year month dt =
     (let ym = year + month div 12; mn = month mod 12 in
      DayFromYear ym + DayFromMonth (if DaysInYear ym = 366 then 1 else 0) mn + dt - 1)"

definition MakeDate :: "int \<Rightarrow> int \<Rightarrow> int" where
  "MakeDate day time = day * msPerDay + time"

definition TimeClip :: "int \<Rightarrow> int option" where
  "TimeClip t = (if \<bar>t\<bar> > 8640000000000000 then None else Some t)"

text \<open>
  The local time zone is the environment's. It is what \<open>LocalTZA(t, isUTC)\<close> of the
  specification returns: the offset of local time from UTC, in milliseconds, at the UTC
  time \<open>t\<close> when \<open>isUTC\<close> is true, and for the local time \<open>t\<close> when it is false (for a local
  time that the zone skips, the offset before the change).
\<close>

type_synonym zone = "int \<Rightarrow> bool \<Rightarrow> int"

definition LocalTime :: "zone \<Rightarrow> int \<Rightarrow> int" where
  "LocalTime tz t = t + tz t True"

definition UTC :: "zone \<Rightarrow> int \<Rightarrow> int" where
  "UTC tz t = t - tz t False"

text \<open>
  The Date constructor reads a year from 0 to 99 as a year of the twentieth century,
  takes the day at its local midnight and keeps the time value only if it is in range.
  A Date is its time value, or \<open>None\<close> when it is invalid.
\<close>

type_synonym js_date = "int option"

definition MakeFullYear :: "int \<Rightarrow> int" where
  "MakeFullYear y = (if 0 \<le> y \<and> y \<le> 99 then 1900 + y else y)"

definition local_midnight :: "int \<Rightarrow> int \<Rightarrow> int \<Rightarrow> int" where
  "local_midnight year month dt = MakeDate (MakeDay (MakeFullYear year) month dt) 0"

definition Date_new :: "zone \<Rightarrow> int \<Rightarrow> int \<Rightarrow> int \<Rightarrow> js_date" where
  "Date_new tz year month dt = TimeClip (UTC tz (local_midnight year month dt))"

definition getDay :: "zone \<Rightarrow> js_date \<Rightarrow> num" where
  "getDay tz d = (case d of None \<Rightarrow> None | Some t \<Rightarrow> Some (WeekDay (LocalTime tz t)))"

definition getDate :: "zone \<Rightarrow> js_date \<Rightarrow> num" where
  "getDate tz d = (case d of None \<Rightarrow> None | Some t \<Rightarrow> Some (DateFromTime (LocalTime tz t)))"

definition getMonth :: "zone \<Rightarrow> js_date \<Rightarrow> num" where
  "getMonth tz d = (case d of None \<Rightarrow> None | Some t \<Rightarrow> Some (MonthFromTime (LocalTime tz t)))"

definition getFullYear :: "zone \<Rightarrow> js_date \<Rightarrow> num" where
  "getFullYear tz d = (case d of None \<Rightarrow> None | Some t \<Rightarrow> Some (YearFromTime (LocalTime tz t)))"

text \<open>
  Two conditions on a local time and a zone: the zone does not skip the local time (read
  as local time and written back, it is the same), and the time is in the range of Date.
\<close>

definition unskipped :: "zone \<Rightarrow> int \<Rightarrow> bool" where
  "unskipped tz t = (LocalTime tz (UTC tz t) = t)"

definition in_range :: "zone \<Rightarrow> int \<Rightarrow> bool" where
  "in_range tz t = (\<bar>UTC tz t\<bar> \<le> 8640000000000000)"

text \<open>
  Two zones: UTC, and the zone of the Line Islands (Kiritimati) around their change from
  10 hours behind UTC to 14 hours ahead of it, at 10:00 UTC on 31 December 1994. The
  local day that would have been 31 December 1994 was skipped.
\<close>

definition utc :: zone where
  "utc t isUTC = 0"

definition line_islands :: zone where
  "line_islands t isUTC =
     (if isUTC then (if t < 788868000000 then - 36000000 else 50400000)
      else (if t < 788918400000 then - 36000000 else 50400000))"

section \<open>The calendar page (script.js)\<close>

subsection \<open>Data\<close>

record event =
  title :: string
  date :: string
  time :: string
  duration :: string

definition staticEvents0 :: "event list" where
  "staticEvents0 =
     [\<lparr>title = ''Project Kickoff'', date = ''2025-11-25'', time = ''10:00'', duration = ''1h''\<rparr>,
      \<lparr>title = ''Team Review'', date = ''2025-11-25'', time = ''11:00'', duration = ''30m''\<rparr>,
      \<lparr>title = ''Client Presentation'', date = ''2025-11-25'', time = ''14:00'', duration = ''2h''\<rparr>,
      \<lparr>title = ''Quarterly Planning'', date = ''2025-12-05'', time = ''09:30'', duration = ''2h''\<rparr>,
      \<lparr>title = ''Holiday Party'', date = ''2025-12-24'', time = ''18:00'', duration = ''4h''\<rparr>,
      \<lparr>title = ''Bug Bash'', date = ''2025-11-01'', time = ''09:00'', duration = ''3h''\<rparr>]"

text \<open>
  The page: an event element carries its class list, text and tooltip; a date cell its
  class list, the day number shown, the date stored on an active cell (which is also the
  cell that has a click listener) and its event elements.
\<close>

record event_div =
  div_classes :: "string list"
  div_text :: string
  div_title :: string

record cell =
  cell_classes :: "string list"
  day_number :: num
  dataset_date :: "string option"
  cell_events :: "event_div list"

record form =
  event_title :: string
  event_date :: string
  event_time :: string
  event_duration :: string

record page =
  currentYear :: int
  currentMonth :: int
  staticEvents :: "event list"
  calendarGrid :: "cell list"
  modal_display :: string
  addEventForm :: form

subsection \<open>Helper functions\<close>

definition formatDate :: "int \<Rightarrow> int \<Rightarrow> num \<Rightarrow> string" where
  "formatDate year month day =
     (let m = padStart 2 CHR ''0'' (toString (month + 1));
          d = padStart 2 CHR ''0'' (num_toString day)
      in toString year @ ''-'' @ m @ ''-'' @ d)"

definition hasConflict :: "event list \<Rightarrow> int" where
  "hasConflict dayEvents = int (length dayEvents)"

subsection \<open>Date cells\<close>

definition event_element :: "int \<Rightarrow> event \<Rightarrow> event_div" where
  "event_element conflictCount e =
     \<lparr>div_classes =
        ''event'' #
        (if conflictCount = 2 then [''conflict-level-2'']
         else if conflictCount \<ge> 3 then [''conflict-level-3'']
         else []),
      div_text = time e @ '' - '' @ title e,
      div_title = title e @ '' ('' @ time e @ '', '' @ duration e @ '')''\<rparr>"

definition createDateCell ::
  "int \<Rightarrow> int \<Rightarrow> num \<Rightarrow> bool \<Rightarrow> bool \<Rightarrow> bool \<Rightarrow> event list \<Rightarrow> cell" where
  "createDateCell year month day isInactive isPrevMonth isToday events =
     \<lparr>cell_classes =
        ''date-cell'' #
        (if isInactive then [''inactive-month''] else []) @
        (if isToday then [''current-day''] else []),
      day_number = day,
      dataset_date = (if \<not> isInactive then Some (formatDate year month day) else None),
      cell_events =
        (if length events > 0 \<and> \<not> isInactive
         then (let conflictCount = hasConflict events
               in map (event_element conflictCount) events)
         else [])\<rparr>"

subsection \<open>Rendering the month\<close>

definition firstDayOfMonth :: "zone \<Rightarrow> int \<Rightarrow> int \<Rightarrow> num" where
  "firstDayOfMonth tz year month = getDay tz (Date_new tz year month 1)"

definition daysInMonth :: "zone \<Rightarrow> int \<Rightarrow> int \<Rightarrow> num" where
  "daysInMonth tz year month = getDate tz (Date_new tz year (month + 1) 0)"

definition daysInPrevMonth :: "zone \<Rightarrow> int \<Rightarrow> int \<Rightarrow> num" where
  "daysInPrevMonth tz year month = getDate tz (Date_new tz year month 0)"

definition totalCells :: "zone \<Rightarrow> int \<Rightarrow> int \<Rightarrow> num" where
  "totalCells tz year month = num_add (firstDayOfMonth tz year month) (daysInMonth tz year month)"

definition nextMonthDaysNeeded :: "zone \<Rightarrow> int \<Rightarrow> int \<Rightarrow> num" where
  "nextMonthDaysNeeded tz year month = num_rem (num_sub (Some 42) (totalCells tz year month)) 7"

definition dayEvents :: "event list \<Rightarrow> string \<Rightarrow> event list" where
  "dayEvents evs dateString = Array_filter (\<lambda>e. date e = dateString) evs"

definition prev_cells :: "zone \<Rightarrow> int \<Rightarrow> int \<Rightarrow> cell list" where
  "prev_cells tz year month =
     map (\<lambda>i. createDateCell year month
                 (num_add (num_add (num_sub (daysInPrevMonth tz year month)
                                            (firstDayOfMonth tz year month))
                                   (Some i))
                          (Some 1))
                 True True False [])
         (loop_below 0 (firstDayOfMonth tz year month))"

text \<open>\<open>today\<close> is the time value of \<^verbatim>\<open>new Date()\<close>, which is always valid.\<close>

definition month_cells :: "zone \<Rightarrow> int \<Rightarrow> int \<Rightarrow> int \<Rightarrow> event list \<Rightarrow> cell list" where
  "month_cells tz today year month evs =
     map (\<lambda>day.
            let dateString = formatDate year month (Some day);
                isToday = (Some day = getDate tz (Some today)
                           \<and> Some month = getMonth tz (Some today)
                           \<and> Some year = getFullYear tz (Some today))
            in createDateCell year month (Some day) False False isToday
                 (dayEvents evs dateString))
         (loop_upto 1 (daysInMonth tz year month))"

definition next_cells :: "zone \<Rightarrow> int \<Rightarrow> int \<Rightarrow> cell list" where
  "next_cells tz year month =
     map (\<lambda>i. createDateCell year month (Some i) True False False [])
         (loop_upto 1 (nextMonthDaysNeeded tz year month))"

definition renderCalendar :: "zone \<Rightarrow> int \<Rightarrow> page \<Rightarrow> page" where
  "renderCalendar tz today s =
     s\<lparr>calendarGrid :=
         prev_cells tz (currentYear s) (currentMonth s) @
         month_cells tz today (currentYear s) (currentMonth s) (staticEvents s) @
         next_cells tz (currentYear s) (currentMonth s)\<rparr>"

subsection \<open>Handlers\<close>

definition prevMonthBtn_click :: "zone \<Rightarrow> int \<Rightarrow> page \<Rightarrow> page" where
  "prevMonthBtn_click tz today s =
     (let s1 = s\<lparr>currentMonth := currentMonth s - 1\<rparr>;
          s2 = (if currentMonth s1 < 0
                then s1\<lparr>currentMonth := 11, currentYear := currentYear s1 - 1\<rparr>
                else s1)
      in renderCalendar tz today s2)"

definition nextMonthBtn_click :: "zone \<Rightarrow> int \<Rightarrow> page \<Rightarrow> page" where
  "nextMonthBtn_click tz today s =
     (let s1 = s\<lparr>currentMonth := currentMonth s + 1\<rparr>;
          s2 = (if currentMonth s1 > 11
                then s1\<lparr>currentMonth := 0, currentYear := currentYear s1 + 1\<rparr>
                else s1)
      in renderCalendar tz today s2)"

text \<open>Only a cell that stores a date has the click listener that opens the form.\<close>

definition cell_click :: "cell \<Rightarrow> page \<Rightarrow> page" where
  "cell_click c s =
     (case dataset_date c of
        None \<Rightarrow> s
      | Some dateString \<Rightarrow>
          s\<lparr>addEventForm := (addEventForm s)\<lparr>event_date := dateString\<rparr>,
            modal_display := ''block''\<rparr>)"

definition closeBtn_click :: "page \<Rightarrow> page" where
  "closeBtn_click s = s\<lparr>modal_display := ''none''\<rparr>"

definition window_click :: "bool \<Rightarrow> page \<Rightarrow> page" where
  "window_click target_is_modal s =
     (if target_is_modal then s\<lparr>modal_display := ''none''\<rparr> else s)"

text \<open>
  The submit handler. \<^verbatim>\<open>reset()\<close> puts the default values of the form's fields back;
  they are set in the markup and are a parameter here.
\<close>

definition addEventForm_submit :: "form \<Rightarrow> zone \<Rightarrow> int \<Rightarrow> page \<Rightarrow> page" where
  "addEventForm_submit defaults tz today s =
     (let f = addEventForm s;
          newEvent = \<lparr>title = event_title f, date = event_date f,
                      time = event_time f, duration = event_duration f\<rparr>;
          s1 = s\<lparr>staticEvents := staticEvents s @ [newEvent]\<rparr>;
          s2 = s1\<lparr>addEventForm := defaults\<rparr>;
          s3 = s2\<lparr>modal_display := ''none''\<rparr>
      in renderCalendar tz today s3)"

text \<open>
  Loading the page reads the clock for the year, for the month and for \<open>today\<close>, and
  renders once. The states of the page are the loaded one and those the handlers lead to.
\<close>

definition page_load :: "zone \<Rightarrow> int \<Rightarrow> int \<Rightarrow> int \<Rightarrow> string \<Rightarrow> form \<Rightarrow> page" where
  "page_load tz now1 now2 today display0 defaults =
     renderCalendar tz today
       \<lparr>currentYear = YearFromTime (LocalTime tz now1),
        currentMonth = MonthFromTime (LocalTime tz now2),
        staticEvents = staticEvents0, calendarGrid = [],
        modal_display = display0, addEventForm = defaults\<rparr>"

inductive reachable :: "zone \<Rightarrow> int \<Rightarrow> form \<Rightarrow> page \<Rightarrow> bool" for tz today defaults where
  loaded: "reachable tz today defaults (page_load tz now1 now2 today display0 defaults)"
| prev: "reachable tz today defaults s \<Longrightarrow>
         reachable tz today defaults (prevMonthBtn_click tz today s)"
| nxt: "reachable tz today defaults s \<Longrightarrow>
        reachable tz today defaults (nextMonthBtn_click tz today s)"
| click: "reachable tz today defaults s \<Longrightarrow> c \<in> set (calendarGrid s) \<Longrightarrow>
          reachable tz today defaults (cell_click c s)"
| close: "reachable tz today defaults s \<Longrightarrow> reachable tz today defaults (closeBtn_click s)"
| outside: "reachable tz today defaults s \<Longrightarrow> reachable tz today defaults (window_click b s)"
| typed: "reachable tz today defaults s \<Longrightarrow> reachable tz today defaults (s\<lparr>addEventForm := f\<rparr>)"
| submit: "reachable tz today defaults s \<Longrightarrow>
           reachable tz today defaults (addEventForm_submit defaults tz today s)"

section \<open>The events service\<close>

subsection \<open>Values\<close>

text \<open>
  The body of a request is what the JSON parser made of it, or \<open>undefined\<close> when nothing
  was parsed. A number is a double: a real number or an infinity (a JSON text gives no
  \<open>NaN\<close>; the two zeros are not told apart, both being falsy). An object lists its keys
  with their values, each key once.
\<close>

datatype number = Finite real | PosInfinity | NegInfinity

datatype jsval =
  JUndefined
| JNull
| JBool bool
| JNum number
| JStr string
| JArr "jsval list"
| JObj "(string \<times> jsval) list"

text \<open>\<open>ToBoolean\<close>, the test that \<^verbatim>\<open>!\<close> and \<^verbatim>\<open>||\<close> apply.\<close>

definition truthy :: "jsval \<Rightarrow> bool" where
  "truthy v =
     (case v of
        JUndefined \<Rightarrow> False
      | JNull \<Rightarrow> False
      | JBool b \<Rightarrow> b
      | JNum n \<Rightarrow> n \<noteq> Finite 0
      | JStr s \<Rightarrow> s \<noteq> []
      | JArr xs \<Rightarrow> True
      | JObj kvs \<Rightarrow> True)"

text \<open>
  Reading the properties \<open>date\<close>, \<open>title\<close> and \<open>description\<close> of a value: destructuring
  \<open>undefined\<close> or \<open>null\<close> throws; an object gives the value of the key, and anything else,
  or an object without the key, gives \<open>undefined\<close>.
\<close>

datatype exception = TypeError | BSONError | MongoError

definition destructurable :: "jsval \<Rightarrow> bool" where
  "destructurable v = (v \<noteq> JUndefined \<and> v \<noteq> JNull)"

definition property :: "jsval \<Rightarrow> string \<Rightarrow> jsval" where
  "property v k =
     (case v of
        JObj kvs \<Rightarrow> (case map_of kvs k of Some x \<Rightarrow> x | None \<Rightarrow> JUndefined)
      | _ \<Rightarrow> JUndefined)"

subsection \<open>The store\<close>

text \<open>
  An \<open>ObjectId\<close> is twelve bytes, written as 24 hexadecimal digits of either case; it is
  kept as the list of the digits' values. The constructor throws on any other string.
\<close>

type_synonym objectid = "nat list"

definition is_hex :: "char \<Rightarrow> bool" where
  "is_hex c = (c \<in> set ''0123456789abcdefABCDEF'')"

definition hex_value :: "char \<Rightarrow> nat" where
  "hex_value c =
     (if c \<in> set ''0123456789'' then of_char c - 48
      else if c \<in> set ''abcdef'' then of_char c - 87
      else of_char c - 55)"

definition ObjectId_new :: "string \<Rightarrow> exception + objectid" where
  "ObjectId_new s =
     (if length s = 24 \<and> list_all is_hex s then Inr (map hex_value s) else Inl BSONError)"

text \<open>
  A document as the service writes it, before and after the store has given it its
  \<open>_id\<close>. The date, title and description are the values of the request, of whatever
  type; the creation time is a time value.
\<close>

record new_doc =
  doc_date :: jsval
  doc_title :: jsval
  doc_description :: jsval
  doc_createdAt :: int

record event_doc = new_doc +
  doc_id :: objectid

text \<open>
  The collection holds its documents in insertion order. A call of the driver throws
  when the store cannot be reached, and an insertion throws on an \<open>_id\<close> that is taken.

  A query for a date given as a string matches a document whose date is that string, or
  an array with that string among its elements. A sort on \<open>date\<close> follows the store's
  comparison order: values are ordered by type (null, numbers, strings, objects, arrays,
  booleans), numbers by value and strings by their characters' codes; an array counts as
  its least element, an empty one below null. Objects, and arrays inside arrays, the store
  compares by their contents; here they count as equal among themselves. Documents that
  compare equal are left in the order of the collection, one of the orders the store may
  return them in.
\<close>

definition bson_match :: "string \<Rightarrow> jsval \<Rightarrow> bool" where
  "bson_match d v = (case v of JArr xs \<Rightarrow> JStr d \<in> set xs | _ \<Rightarrow> v = JStr d)"

type_synonym bson_key = "nat \<times> nat \<times> real \<times> string"

definition value_key :: "jsval \<Rightarrow> bson_key" where
  "value_key v =
     (case v of
        JUndefined \<Rightarrow> (1, 0, 0, [])
      | JNull \<Rightarrow> (1, 0, 0, [])
      | JNum NegInfinity \<Rightarrow> (2, 0, 0, [])
      | JNum (Finite r) \<Rightarrow> (2, 1, r, [])
      | JNum PosInfinity \<Rightarrow> (2, 2, 0, [])
      | JStr s \<Rightarrow> (3, 0, 0, s)
      | JObj kvs \<Rightarrow> (4, 0, 0, [])
      | JArr xs \<Rightarrow> (5, 0, 0, [])
      | JBool b \<Rightarrow> (8, if b then 1 else 0, 0, []))"

definition sort_value_key :: "jsval \<Rightarrow> bson_key" where
  "sort_value_key v =
     (case v of
        JArr [] \<Rightarrow> (0, 0, 0, [])
      | JArr (x # xs) \<Rightarrow> fold min (map value_key xs) (value_key x)
      | _ \<Rightarrow> value_key v)"

record collection =
  docs :: "event_doc list"
  available :: bool

definition find_sort_date :: "string option \<Rightarrow> collection \<Rightarrow> exception + event_doc list" where
  "find_sort_date query c =
     (if \<not> available c then Inl MongoError
      else Inr (sort_key (\<lambda>x. sort_value_key (doc_date x))
                  (case query of
                     None \<Rightarrow> docs c
                   | Some d \<Rightarrow> filter (\<lambda>x. bson_match d (doc_date x)) (docs c))))"

definition insertOne ::
  "objectid \<Rightarrow> new_doc \<Rightarrow> collection \<Rightarrow> exception + (objectid \<times> collection)" where
  "insertOne new_id d c =
     (if \<not> available c \<or> new_id \<in> set (map doc_id (docs c)) then Inl MongoError
      else Inr (new_id,
                c\<lparr>docs := docs c @
                   [\<lparr>doc_date = doc_date d, doc_title = doc_title d,
                     doc_description = doc_description d, doc_createdAt = doc_createdAt d,
                     doc_id = new_id\<rparr>]\<rparr>))"

fun remove_first :: "objectid \<Rightarrow> event_doc list \<Rightarrow> event_doc list" where
  "remove_first i [] = []"
| "remove_first i (x # xs) = (if doc_id x = i then xs else x # remove_first i xs)"

definition deleteOne :: "objectid \<Rightarrow> collection \<Rightarrow> exception + (nat \<times> collection)" where
  "deleteOne i c =
     (if \<not> available c then Inl MongoError
      else if i \<in> set (map doc_id (docs c)) then Inr (1, c\<lparr>docs := remove_first i (docs c)\<rparr>)
      else Inr (0, c))"

subsection \<open>Responses\<close>

datatype body =
  Events "event_doc list"
| Created event_doc
| Message string
| Error string

type_synonym response = "nat \<times> body"

subsection \<open>Handlers\<close>

text \<open>The date of a list request is the query parameter, a string or absent.\<close>

definition param_value :: "string option \<Rightarrow> jsval" where
  "param_value p = (case p of None \<Rightarrow> JUndefined | Some s \<Rightarrow> JStr s)"

definition get_events :: "string option \<Rightarrow> collection \<Rightarrow> response \<times> collection" where
  "get_events date_param c =
     (let query = (if truthy (param_value date_param) then date_param else None) in
      case find_sort_date query c of
        Inr events \<Rightarrow> ((200, Events events), c)
      | Inl err \<Rightarrow> ((500, Error ''Failed to fetch events''), c))"

definition post_events ::
  "int \<Rightarrow> objectid \<Rightarrow> jsval \<Rightarrow> collection \<Rightarrow> response \<times> collection" where
  "post_events now new_id req_body c =
     (if \<not> destructurable req_body then ((500, Error ''Failed to add event''), c)
      else
        let date = property req_body ''date'';
            title = property req_body ''title'';
            description = property req_body ''description''
        in if \<not> truthy date \<or> \<not> truthy title
           then ((400, Error ''date and title are required''), c)
           else
             let d = \<lparr>doc_date = date, doc_title = title,
                      doc_description = (if truthy description then description else JStr []),
                      doc_createdAt = now\<rparr>
             in case insertOne new_id d c of
                  Inr (insertedId, c') \<Rightarrow>
                    ((201, Created \<lparr>doc_date = doc_date d, doc_title = doc_title d,
                                    doc_description = doc_description d,
                                    doc_createdAt = doc_createdAt d, doc_id = insertedId\<rparr>), c')
                | Inl err \<Rightarrow> ((500, Error ''Failed to add event''), c))"

definition delete_event :: "string \<Rightarrow> collection \<Rightarrow> response \<times> collection" where
  "delete_event id_param c =
     (case ObjectId_new id_param of
        Inl err \<Rightarrow> ((500, Error ''Failed to delete event''), c)
      | Inr i \<Rightarrow>
          (case deleteOne i c of
             Inl err \<Rightarrow> ((500, Error ''Failed to delete event''), c)
           | Inr (deletedCount, c') \<Rightarrow>
               if deletedCount = 0 then ((404, Error ''Event not found''), c')
               else ((200, Message ''Event deleted''), c')))"

text \<open>The stores the service can produce from an empty one.\<close>

inductive served :: "collection \<Rightarrow> bool" where
  empty: "served \<lparr>docs = [], available = a\<rparr>"
| outage: "served c \<Longrightarrow> served (c\<lparr>available := a\<rparr>)"
| got: "served c \<Longrightarrow> served (snd (get_events q c))"
| posted: "served c \<Longrightarrow> served (snd (post_events now new_id b c))"
| deleted: "served c \<Longrightarrow> served (snd (delete_event i c))"

section \<open>The calendar in the specification's words\<close>

text \<open>
  The Gregorian calendar, stated without the Date algorithms: the leap-year rule, the
  lengths of the months, and the weekday of a date counted from 1 January 1970, a
  Thursday (index 4 when Sunday is 0). Months are numbered from 0.
\<close>

definition spec_leap_year :: "int \<Rightarrow> bool" where
  "spec_leap_year y = (4 dvd y \<and> (\<not> 100 dvd y \<or> 400 dvd y))"

definition spec_days_in_year :: "int \<Rightarrow> int" where
  "spec_days_in_year y = (if spec_leap_year y then 366 else 365)"

definition spec_days_in_month :: "int \<Rightarrow> int \<Rightarrow> int" where
  "spec_days_in_month y m =
     (if m = 1 then (if spec_leap_year y then 29 else 28)
      else if m \<in> {3, 5, 8, 10} then 30
      else 31)"

definition spec_days_before_year :: "int \<Rightarrow> int" where
  "spec_days_before_year y =
     sum_list (map spec_days_in_year [1970 .. y - 1])
     - sum_list (map spec_days_in_year [y .. 1969])"

definition spec_days_before_month :: "int \<Rightarrow> int \<Rightarrow> int" where
  "spec_days_before_month y m = sum_list (map (spec_days_in_month y) [0 .. m - 1])"

definition spec_weekday_of_first :: "int \<Rightarrow> int \<Rightarrow> int" where
  "spec_weekday_of_first y m =
     (4 + spec_days_before_year y + spec_days_before_month y m) mod 7"

definition spec_trailing_count :: "int \<Rightarrow> int \<Rightarrow> int" where
  "spec_trailing_count leadingCount days = (42 - (leadingCount + days)) mod 7"

text \<open>
  The two Dates a month is laid out from are those of the local midnights of its first
  and of its last day. The month is valid when both are in the range of Date, and
  unskipped when the zone skips neither.
\<close>

definition month_valid :: "zone \<Rightarrow> int \<Rightarrow> int \<Rightarrow> bool" where
  "month_valid tz year month =
     (in_range tz (local_midnight year month 1)
      \<and> in_range tz (local_midnight year (month + 1) 0))"

definition month_unskipped :: "zone \<Rightarrow> int \<Rightarrow> int \<Rightarrow> bool" where
  "month_unskipped tz year month =
     (unskipped tz (local_midnight year month 1) \<and> unskipped tz (local_midnight year (month + 1) 0))"

text \<open>The conflict classifier of the specification, on the number of events of a day.\<close>

datatype conflict = none | single | double | multiple

definition spec_classify :: "nat \<Rightarrow> conflict" where
  "spec_classify n = (if n = 0 then none else if n = 1 then single
                      else if n = 2 then double else multiple)"

definition spec_flag :: "conflict \<Rightarrow> string list" where
  "spec_flag k = (case k of double \<Rightarrow> [''conflict-level-2'']
                  | multiple \<Rightarrow> [''conflict-level-3''] | _ \<Rightarrow> [])"

text \<open>The falsy values, and the stores whose documents all have a string as date.\<close>

definition spec_falsy :: "jsval set" where
  "spec_falsy = {JUndefined, JNull, JBool False, JNum (Finite 0), JStr []}"

definition string_dates :: "collection \<Rightarrow> bool" where
  "string_dates c = list_all (\<lambda>x. case doc_date x of JStr s \<Rightarrow> True | _ \<Rightarrow> False) (docs c)"

definition date_string :: "event_doc \<Rightarrow> string" where
  "date_string x = (case doc_date x of JStr s \<Rightarrow> s | _ \<Rightarrow> [])"


section \<open>Sample data\<close>

text \<open>
  An empty form and a page showing November 2025; a request, the document it becomes
  and the stores before and after it; the document a request that passes the check is
  stored as.
\<close>

definition form0 :: form where
  "form0 = \<lparr>event_title = [], event_date = [], event_time = [], event_duration = []\<rparr>"

definition oid0 :: objectid where
  "oid0 = map hex_value ''65a1b2c3d4e5f60718293a4b''"

definition standup :: jsval where
  "standup = JObj [(''date'', JStr ''2025-12-01''), (''title'', JStr ''Standup'')]"

definition standup_doc :: event_doc where
  "standup_doc = \<lparr>doc_date = JStr ''2025-12-01'', doc_title = JStr ''Standup'',
                  doc_description = JStr [], doc_createdAt = 1764547200000, doc_id = oid0\<rparr>"

definition store0 :: collection where
  "store0 = \<lparr>docs = [], available = True\<rparr>"

definition store1 :: collection where
  "store1 = \<lparr>docs = [standup_doc], available = True\<rparr>"

definition posted_doc :: "int \<Rightarrow> objectid \<Rightarrow> jsval \<Rightarrow> event_doc" where
  "posted_doc now new_id req_body =
     \<lparr>doc_date = property req_body ''date'', doc_title = property req_body ''title'',
      doc_description =
        (if truthy (property req_body ''description'') then property req_body ''description''
         else JStr []),
      doc_createdAt = now, doc_id = new_id\<rparr>"

section \<open>Properties of the Date algorithms\<close>

lemma div_succ:
  fixes a n :: int
  assumes n: "0 < n"
  shows "(a + 1) div n = a div n + (if (a + 1) mod n = 0 then 1 else 0)"
proof -
  define q where "q = a div n"
  define r where "r = a mod n"
  have a: "a = n * q + r" by (simp add: q_def r_def)
  have r: "0 \<le> r" "r < n" using n by (simp_all add: r_def)
  show ?thesis
  proof (cases "r + 1 = n")
    case True
    then have e: "a + 1 = n * (q + 1)" using a by (simp add: algebra_simps)
    have "(a + 1) div n = q + 1" "(a + 1) mod n = 0"
      using n unfolding e by simp_all
    then show ?thesis by (simp add: q_def)
  next
    case False
    then have s: "0 \<le> r + 1" "r + 1 < n" using r by simp_all
    have e: "a + 1 = n * q + (r + 1)" using a by simp
    have "(a + 1) div n = q" "(a + 1) mod n = r + 1"
      unfolding e using s n by simp_all
    then show ?thesis using s r by (simp add: q_def)
  qed
qed

lemma div4: "(y - 1968) div 4 = (y - 1969) div 4 + (if y mod 4 = 0 then 1 else 0)" for y :: int
proof -
  have "(y - 1968) mod 4 = y mod 4"
    using mod_diff_eq [of y 4 1968] by simp
  then show ?thesis using div_succ [of 4 "y - 1969"] by simp
qed

lemma div100: "(y - 1900) div 100 = (y - 1901) div 100 + (if y mod 100 = 0 then 1 else 0)" for y :: int
proof -
  have "(y - 1900) mod 100 = y mod 100"
    using mod_diff_eq [of y 100 1900] by simp
  then show ?thesis using div_succ [of 100 "y - 1901"] by simp
qed

lemma div400: "(y - 1600) div 400 = (y - 1601) div 400 + (if y mod 400 = 0 then 1 else 0)" for y :: int
proof -
  have "(y - 1600) mod 400 = y mod 400"
    using mod_diff_eq [of y 400 1600] by simp
  then show ?thesis using div_succ [of 400 "y - 1601"] by simp
qed

lemma mod400_100: "y mod 400 = 0 \<Longrightarrow> y mod 100 = 0" for y :: int
  using mod_mod_cancel [of 100 400 y] by simp

lemma mod100_4: "y mod 100 = 0 \<Longrightarrow> y mod 4 = 0" for y :: int
  using mod_mod_cancel [of 4 100 y] by simp

lemma DayFromYear_step: "DayFromYear (y + 1) = DayFromYear y + DaysInYear y"
  using mod400_100 [of y] mod100_4 [of y]
  by (simp add: DayFromYear_def DaysInYear_def div4 div100 div400)

lemma DaysInYear_pos: "0 < DaysInYear y"
  by (simp add: DaysInYear_def)

lemma DaysInYear_spec: "DaysInYear y = spec_days_in_year y"
  by (simp add: DaysInYear_def spec_days_in_year_def spec_leap_year_def mod_eq_0_iff_dvd)

lemma DayFromYear_less_nat: "DayFromYear a < DayFromYear (a + 1 + int n)"
proof (induction n)
  case 0
  then show ?case using DaysInYear_pos [of a] by (simp add: DayFromYear_step)
next
  case (Suc n)
  have "DayFromYear (a + 1 + int (Suc n)) = DayFromYear ((a + 1 + int n) + 1)"
    by (simp add: add.assoc)
  also have "\<dots> = DayFromYear (a + 1 + int n) + DaysInYear (a + 1 + int n)"
    by (rule DayFromYear_step)
  finally show ?case using Suc.IH DaysInYear_pos [of "a + 1 + int n"] by simp
qed

lemma DayFromYear_strict_mono: "a < b \<Longrightarrow> DayFromYear a < DayFromYear b"
  using DayFromYear_less_nat [of a "nat (b - a - 1)"] by simp

lemma DayFromYear_less_iff: "DayFromYear a < DayFromYear b \<longleftrightarrow> a < b"
  using DayFromYear_strict_mono [of a b] DayFromYear_strict_mono [of b a]
  by (cases a b rule: linorder_cases) auto

lemma year_down_le: "DayFromYear (year_down y d) \<le> d"
proof (induction y d rule: year_down.induct)
  case (1 y d)
  then show ?case by (subst year_down.simps) simp
qed

lemma year_up_bracket:
  "DayFromYear y \<le> d \<Longrightarrow>
   DayFromYear (year_up y d) \<le> d \<and> d < DayFromYear (year_up y d + 1)"
proof (induction y d rule: year_up.induct)
  case (1 y d)
  show ?case
  proof (cases "DayFromYear (y + 1) \<le> d")
    case True
    then show ?thesis using "1.IH" by (subst (1 2) year_up.simps) simp
  next
    case False
    then show ?thesis using "1.prems" by (subst (1 2) year_up.simps) simp
  qed
qed

lemma YearFromTime_bracket:
  "DayFromYear (YearFromTime t) \<le> Day t \<and> Day t < DayFromYear (YearFromTime t + 1)"
  unfolding YearFromTime_def by (rule year_up_bracket) (rule year_down_le)

lemma YearFromTime_unique:
  assumes "DayFromYear y \<le> Day t" "Day t < DayFromYear (y + 1)"
  shows "YearFromTime t = y"
proof -
  let ?Y = "YearFromTime t"
  have b: "DayFromYear ?Y \<le> Day t" "Day t < DayFromYear (?Y + 1)"
    using YearFromTime_bracket [of t] by simp_all
  have "DayFromYear ?Y < DayFromYear (y + 1)" using b(1) assms(2) by simp
  then have 1: "?Y < y + 1" by (simp only: DayFromYear_less_iff)
  have "DayFromYear y < DayFromYear (?Y + 1)" using b(2) assms(1) by simp
  then have 2: "y < ?Y + 1" by (simp only: DayFromYear_less_iff)
  from 1 2 show ?thesis by simp
qed

lemma YearFromTime_within:
  assumes "Day t = DayFromYear y + w" "0 \<le> w" "w < DaysInYear y"
  shows "YearFromTime t = y"
  by (rule YearFromTime_unique) (use assms in \<open>simp_all add: DayFromYear_step\<close>)

lemma DayWithinYear_within:
  assumes "Day t = DayFromYear y + w" "0 \<le> w" "w < DaysInYear y"
  shows "DayWithinYear t = w"
  by (simp add: DayWithinYear_def YearFromTime_within [OF assms] assms(1))

lemma InLeapYear_within:
  assumes "Day t = DayFromYear y + w" "0 \<le> w" "w < DaysInYear y"
  shows "InLeapYear t = (if DaysInYear y = 366 then 1 else 0)"
  by (simp add: InLeapYear_def YearFromTime_within [OF assms])

lemma DayWithinYear_range: "0 \<le> DayWithinYear t \<and> DayWithinYear t < DaysInYear (YearFromTime t)"
  using YearFromTime_bracket [of t] by (simp add: DayWithinYear_def DayFromYear_step)

lemma DaysInYear_cases: "DaysInYear y = 365 \<or> DaysInYear y = 366"
  by (simp add: DaysInYear_def)

lemma month_cases:
  fixes m :: int
  assumes "0 \<le> m" "m \<le> 11"
  shows "m = 0 \<or> m = 1 \<or> m = 2 \<or> m = 3 \<or> m = 4 \<or> m = 5 \<or> m = 6 \<or> m = 7 \<or> m = 8
         \<or> m = 9 \<or> m = 10 \<or> m = 11"
  using assms by arith

lemma MakeDay_month:
  assumes "0 \<le> m" "m \<le> 11"
  shows "MakeDay y m dt =
         DayFromYear y + DayFromMonth (if DaysInYear y = 366 then 1 else 0) m + dt - 1"
proof -
  have "m div 12 = 0" "m mod 12 = m" using assms by simp_all
  then show ?thesis by (simp add: MakeDay_def)
qed

lemma MakeDay_12: "MakeDay y 12 dt = DayFromYear (y + 1) + dt - 1"
  by (simp add: MakeDay_def DayFromMonth_def)

lemma MonthFromTime_within:
  assumes "Day t = DayFromYear y + w" "0 \<le> w" "w < DaysInYear y"
  shows "MonthFromTime t =
     (let l = (if DaysInYear y = 366 then 1 else 0) in
      if w < 31 then 0
      else if w < 59 + l then 1
      else if w < 90 + l then 2
      else if w < 120 + l then 3
      else if w < 151 + l then 4
      else if w < 181 + l then 5
      else if w < 212 + l then 6
      else if w < 243 + l then 7
      else if w < 273 + l then 8
      else if w < 304 + l then 9
      else if w < 334 + l then 10
      else 11)"
  unfolding MonthFromTime_def DayWithinYear_within [OF assms] InLeapYear_within [OF assms]
  by (simp only: Let_def)

lemma DateFromTime_within:
  assumes "Day t = DayFromYear y + w" "0 \<le> w" "w < DaysInYear y"
  shows "DateFromTime t =
     (let l = (if DaysInYear y = 366 then 1 else 0) in
      if w < 31 then w + 1
      else if w < 59 + l then w - 30
      else if w < 90 + l then w - 58 - l
      else if w < 120 + l then w - 89 - l
      else if w < 151 + l then w - 119 - l
      else if w < 181 + l then w - 150 - l
      else if w < 212 + l then w - 180 - l
      else if w < 243 + l then w - 211 - l
      else if w < 273 + l then w - 242 - l
      else if w < 304 + l then w - 272 - l
      else if w < 334 + l then w - 303 - l
      else w - 333 - l)"
  unfolding DateFromTime_def MonthFromTime_within [OF assms]
    DayWithinYear_within [OF assms] InLeapYear_within [OF assms]
  using DaysInYear_cases [of y] by (auto simp: Let_def)

lemma DateFromTime_range: "1 \<le> DateFromTime t \<and> DateFromTime t \<le> 31"
proof -
  define y where "y = YearFromTime t"
  define w where "w = DayWithinYear t"
  have w: "Day t = DayFromYear y + w" "0 \<le> w" "w < DaysInYear y"
    using DayWithinYear_range [of t] by (simp_all add: w_def y_def DayWithinYear_def)
  show ?thesis
    unfolding DateFromTime_within [OF w]
    using w(2,3) DaysInYear_cases [of y] by (auto simp: Let_def)
qed

lemma MonthFromTime_range: "0 \<le> MonthFromTime t \<and> MonthFromTime t \<le> 11"
  by (simp add: MonthFromTime_def Let_def)

lemma WeekDay_range: "0 \<le> WeekDay t \<and> WeekDay t \<le> 6"
  by (simp add: WeekDay_def)

lemma Day_MakeDate: "Day (MakeDate d 0) = d"
  by (simp add: Day_def MakeDate_def msPerDay_def)

lemma DateFromTime_last_of_month:
  assumes m: "0 \<le> m" "m \<le> 11" and t: "Day t = MakeDay y (m + 1) 0"
  shows "DateFromTime t = spec_days_in_month y m"
proof (cases "m = 11")
  case True
  have w: "Day t = DayFromYear y + (DaysInYear y - 1)"
    "0 \<le> DaysInYear y - 1" "DaysInYear y - 1 < DaysInYear y"
    using DaysInYear_cases [of y] True t by (auto simp: MakeDay_12 DayFromYear_step)
  show ?thesis
    using DaysInYear_cases [of y] True
    by (auto simp: DateFromTime_within [OF w] spec_days_in_month_def)
next
  case False
  define l :: int where "l = (if DaysInYear y = 366 then 1 else 0)"
  define w where "w = DayFromMonth l (m + 1) - 1"
  have m': "0 \<le> m + 1" "m + 1 \<le> 11" using m False by simp_all
  have mk: "Day t = DayFromYear y + w"
    by (simp add: t MakeDay_month [OF m'] w_def l_def)
  have cs: "m = 0 \<or> m = 1 \<or> m = 2 \<or> m = 3 \<or> m = 4 \<or> m = 5 \<or> m = 6 \<or> m = 7 \<or> m = 8
         \<or> m = 9 \<or> m = 10" using month_cases [OF m] False by simp
  have leap: "spec_leap_year y \<longleftrightarrow> DaysInYear y = 366"
    by (simp add: DaysInYear_spec spec_days_in_year_def)
  have wb: "0 \<le> w" "w < DaysInYear y"
    using cs DaysInYear_cases [of y] by (auto simp: w_def l_def DayFromMonth_def)
  show ?thesis
    unfolding DateFromTime_within [OF mk wb]
    using cs DaysInYear_cases [of y]
    by (elim disjE) (simp_all add: w_def l_def DayFromMonth_def spec_days_in_month_def leap)
qed


lemma spec_days_before_year_ge:
  "1970 \<le> y \<Longrightarrow> spec_days_before_year y = DayFromYear y"
proof (induction y rule: int_ge_induct)
  case base
  show ?case by (simp add: spec_days_before_year_def DayFromYear_def)
next
  case (step i)
  have "[1970 .. i + 1 - 1] = [1970 .. i - 1] @ [i]"
    using step.hyps upto_rec2 [of 1970 i] by simp
  moreover have "[i + 1 .. 1969] = []" "[i .. 1969] = []" using step.hyps by simp_all
  ultimately show ?case
    using step.IH by (simp add: spec_days_before_year_def DayFromYear_step DaysInYear_spec)
qed

lemma spec_days_before_year_le:
  "y \<le> 1970 \<Longrightarrow> spec_days_before_year y = DayFromYear y"
proof (induction y rule: int_le_induct)
  case base
  show ?case by (simp add: spec_days_before_year_def DayFromYear_def)
next
  case (step i)
  have "[i - 1 .. 1969] = (i - 1) # [i .. 1969]"
    using step.hyps upto_rec1 [of "i - 1" 1969] by simp
  moreover have "[1970 .. i - 1 - 1] = []" "[1970 .. i - 1] = []" using step.hyps by simp_all
  moreover have "DayFromYear i = DayFromYear (i - 1) + DaysInYear (i - 1)"
    using DayFromYear_step [of "i - 1"] by simp
  ultimately show ?case
    using step.IH by (simp add: spec_days_before_year_def DaysInYear_spec)
qed

lemma spec_days_before_year_eq: "spec_days_before_year y = DayFromYear y"
  using spec_days_before_year_ge [of y] spec_days_before_year_le [of y] by linarith

lemma spec_days_before_month_eq:
  assumes "0 \<le> m" "m \<le> 11"
  shows "spec_days_before_month y m = DayFromMonth (if DaysInYear y = 366 then 1 else 0) m"
proof -
  have leap: "spec_leap_year y \<longleftrightarrow> DaysInYear y = 366"
    by (simp add: DaysInYear_spec spec_days_in_year_def)
  show ?thesis
    using month_cases [OF assms]
    by (elim disjE)
       (simp_all add: spec_days_before_month_def DayFromMonth_def spec_days_in_month_def
          leap upto.simps)
qed

lemma WeekDay_first_of_month:
  assumes m: "0 \<le> m" "m \<le> 11" and t: "Day t = MakeDay y m 1"
  shows "WeekDay t = spec_weekday_of_first y m"
  by (simp add: WeekDay_def t MakeDay_month [OF m] spec_weekday_of_first_def
      spec_days_before_year_eq spec_days_before_month_eq [OF m] add.commute add.left_commute)

lemma js_rem_nonneg: "0 \<le> a \<Longrightarrow> 0 < b \<Longrightarrow> js_rem a b = a mod b"
  by (cases "a = 0") (simp_all add: js_rem_def)

section \<open>The month grid\<close>

lemma Date_new_in_range:
  "in_range tz (local_midnight y m dt) \<Longrightarrow>
   Date_new tz y m dt = Some (UTC tz (local_midnight y m dt))"
  by (simp add: Date_new_def TimeClip_def in_range_def)

lemma Date_new_out_of_range:
  "\<not> in_range tz (local_midnight y m dt) \<Longrightarrow> Date_new tz y m dt = None"
  by (simp add: Date_new_def TimeClip_def in_range_def)

lemma Day_local_midnight: "Day (local_midnight y m dt) = MakeDay (MakeFullYear y) m dt"
  by (simp add: local_midnight_def Day_MakeDate)

lemma firstDayOfMonth_valid:
  assumes "month_valid tz y m"
  shows "firstDayOfMonth tz y m =
           Some (WeekDay (LocalTime tz (UTC tz (local_midnight y m 1))))"
  using assms by (simp add: firstDayOfMonth_def month_valid_def Date_new_in_range getDay_def)

lemma daysInMonth_valid:
  assumes "month_valid tz y m"
  shows "daysInMonth tz y m =
           Some (DateFromTime (LocalTime tz (UTC tz (local_midnight y (m + 1) 0))))"
  using assms by (simp add: daysInMonth_def month_valid_def Date_new_in_range getDate_def)

lemma nextMonthDaysNeeded_valid:
  assumes "firstDayOfMonth tz y m = Some f" "daysInMonth tz y m = Some d"
    and "0 \<le> f" "f \<le> 6" "1 \<le> d" "d \<le> 31"
  shows "nextMonthDaysNeeded tz y m = Some ((42 - (f + d)) mod 7)"
  using assms
  by (simp add: nextMonthDaysNeeded_def totalCells_def num_add_def num_sub_def num_rem_def
      js_rem_nonneg)

lemma fill_row: "(a + (42 - a) mod 7) mod 7 = 0" for a :: int
  by presburger

text \<open>The equations that evaluate a Date at given numbers.\<close>

lemmas make_date =
  local_midnight_def MakeDate_def MakeDay_def MakeFullYear_def DayFromYear_def DaysInYear_def
  DayFromMonth_def msPerDay_def Let_def

lemmas read_date =
  Day_def LocalTime_def UTC_def DateFromTime_def MonthFromTime_def DayWithinYear_def
  InLeapYear_def YearFromTime_def year_up.simps year_down.simps WeekDay_def

lemma firstDayOfMonth_spec:
  assumes "0 \<le> m" "m \<le> 11" "month_valid tz y m" "month_unskipped tz y m"
  shows "firstDayOfMonth tz y m = Some (spec_weekday_of_first (MakeFullYear y) m)"
proof -
  have "LocalTime tz (UTC tz (local_midnight y m 1)) = local_midnight y m 1"
    using assms(4) by (simp add: month_unskipped_def unskipped_def)
  then show ?thesis
    by (simp add: firstDayOfMonth_valid [OF assms(3)]
        WeekDay_first_of_month [OF assms(1,2) Day_local_midnight])
qed

lemma daysInMonth_spec:
  assumes "0 \<le> m" "m \<le> 11" "month_valid tz y m" "month_unskipped tz y m"
  shows "daysInMonth tz y m = Some (spec_days_in_month (MakeFullYear y) m)"
proof -
  have "LocalTime tz (UTC tz (local_midnight y (m + 1) 0)) = local_midnight y (m + 1) 0"
    using assms(4) by (simp add: month_unskipped_def unskipped_def)
  then show ?thesis
    by (simp add: daysInMonth_valid [OF assms(3)]
        DateFromTime_last_of_month [OF assms(1,2) Day_local_midnight])
qed

text \<open>UTC skips no local time, and a month of our days is in range there.\<close>

lemma unskipped_utc: "unskipped utc t"
  by (simp add: unskipped_def LocalTime_def UTC_def utc_def)

lemma month_unskipped_utc: "month_unskipped utc y m"
  by (simp add: month_unskipped_def unskipped_utc)

lemma november_2025_utc:
  "month_valid utc 2025 10"
  "firstDayOfMonth utc 2025 10 = Some 6" "daysInMonth utc 2025 10 = Some 30"
  "nextMonthDaysNeeded utc 2025 10 = Some 6"
proof -
  show v: "month_valid utc 2025 10"
    by (simp add: month_valid_def in_range_def UTC_def utc_def make_date)
  show 1: "firstDayOfMonth utc 2025 10 = Some 6"
    by (simp add: firstDayOfMonth_spec [OF _ _ v month_unskipped_utc] MakeFullYear_def
        spec_weekday_of_first_def spec_days_before_year_eq spec_days_before_month_eq
        DayFromYear_def DaysInYear_def DayFromMonth_def)
  show 2: "daysInMonth utc 2025 10 = Some 30"
    by (simp add: daysInMonth_spec [OF _ _ v month_unskipped_utc] MakeFullYear_def
        spec_days_in_month_def)
  show "nextMonthDaysNeeded utc 2025 10 = Some 6"
    using nextMonthDaysNeeded_valid [OF 1 2] by simp
qed

lemma spec_november_2025:
  "spec_weekday_of_first 2025 10 = 6" "spec_days_in_month 2025 10 = 30"
  "spec_trailing_count 6 30 = 6"
  by (simp_all add: spec_weekday_of_first_def spec_days_before_year_eq spec_days_before_month_eq
        DayFromYear_def DaysInYear_def DayFromMonth_def spec_days_in_month_def
        spec_trailing_count_def)

lemma calendarGrid_length:
  assumes "0 \<le> currentMonth s" "currentMonth s \<le> 11"
    and "firstDayOfMonth tz (currentYear s) (currentMonth s) = Some f"
    and "daysInMonth tz (currentYear s) (currentMonth s) = Some d"
    and "nextMonthDaysNeeded tz (currentYear s) (currentMonth s) = Some n"
    and "0 \<le> f" "0 \<le> d" "0 \<le> n"
  shows "int (length (calendarGrid (renderCalendar tz today s))) = f + d + n"
  using assms
  by (simp add: renderCalendar_def prev_cells_def month_cells_def next_cells_def
      loop_below_def loop_upto_def)

text \<open>
  Claim C1, as stated: for every year and every month from 0 to 11 the three counts add
  up to a multiple of 7. September 275760 holds the last day a Date can have, the 13th.
  The Date of its first day is valid, a Monday; the Date of its last day is not, so the
  days count and the trailing count are \<open>NaN\<close>, and the grid is the one cell of the
  leading day.
\<close>

theorem grid_counts_out_of_range_counterexample:
  "firstDayOfMonth utc 275760 8 = Some 1
   \<and> daysInMonth utc 275760 8 = None
   \<and> nextMonthDaysNeeded utc 275760 8 = None
   \<and> length (calendarGrid (renderCalendar utc 0
        \<lparr>currentYear = 275760, currentMonth = 8, staticEvents = staticEvents0,
         calendarGrid = [], modal_display = ''none'', addEventForm = form0\<rparr>)) = 1"
proof -
  have 1: "firstDayOfMonth utc 275760 8 = Some 1"
    by (simp add: firstDayOfMonth_def Date_new_def TimeClip_def getDay_def WeekDay_def
        Day_def LocalTime_def UTC_def utc_def make_date)
  have 2: "daysInMonth utc 275760 8 = None"
    by (simp add: daysInMonth_def Date_new_def TimeClip_def getDate_def
        UTC_def utc_def make_date)
  have 3: "nextMonthDaysNeeded utc 275760 8 = None"
    by (simp add: nextMonthDaysNeeded_def totalCells_def 1 2 num_add_def num_sub_def
        num_rem_def)
  show ?thesis
    by (simp add: 1 2 3 renderCalendar_def prev_cells_def month_cells_def next_cells_def
        loop_below_def loop_upto_def)
qed

text \<open>
  Claim C1, amended. For every year and every month from 0 to 11 for which the two
  Dates the month is laid out from are valid, whatever the time zone: the three counts
  are numbers, the rendered grid has as many cells as they add up to, which is a multiple
  of 7, and the trailing count is less than 7 (and not negative).
\<close>

theorem grid_counts_fill_whole_weeks:
  assumes "0 \<le> month" "month \<le> 11" "month_valid tz year month"
  shows "\<exists>f d n. firstDayOfMonth tz year month = Some f
           \<and> daysInMonth tz year month = Some d
           \<and> nextMonthDaysNeeded tz year month = Some n
           \<and> int (length (calendarGrid (renderCalendar tz today
                 \<lparr>currentYear = year, currentMonth = month, staticEvents = evs,
                  calendarGrid = g, modal_display = disp, addEventForm = fm\<rparr>))) = f + d + n
           \<and> (f + d + n) mod 7 = 0 \<and> n < 7 \<and> 0 \<le> n"
proof -
  define f where "f = WeekDay (LocalTime tz (UTC tz (local_midnight year month 1)))"
  define d where "d = DateFromTime (LocalTime tz (UTC tz (local_midnight year (month + 1) 0)))"
  define n where "n = (42 - (f + d)) mod 7"
  let ?s = "\<lparr>currentYear = year, currentMonth = month, staticEvents = evs,
             calendarGrid = g, modal_display = disp, addEventForm = fm\<rparr>"
  have f: "firstDayOfMonth tz year month = Some f"
    by (simp add: f_def firstDayOfMonth_valid [OF assms(3)])
  have d: "daysInMonth tz year month = Some d"
    by (simp add: d_def daysInMonth_valid [OF assms(3)])
  have fb: "0 \<le> f" "f \<le> 6" using WeekDay_range by (simp_all add: f_def)
  have db: "1 \<le> d" "d \<le> 31" using DateFromTime_range by (simp_all add: d_def)
  have n: "nextMonthDaysNeeded tz year month = Some n"
    unfolding n_def by (rule nextMonthDaysNeeded_valid [OF f d fb db])
  have nb: "0 \<le> n" "n < 7" by (simp_all add: n_def)
  have l: "int (length (calendarGrid (renderCalendar tz today ?s))) = f + d + n"
    by (rule calendarGrid_length) (use assms f d n fb db nb in simp_all)
  have m: "(f + d + n) mod 7 = 0"
    unfolding n_def by (rule fill_row)
  show ?thesis
  proof (intro exI conjI)
    show "firstDayOfMonth tz year month = Some f" by (rule f)
    show "daysInMonth tz year month = Some d" by (rule d)
    show "nextMonthDaysNeeded tz year month = Some n" by (rule n)
    show "int (length (calendarGrid (renderCalendar tz today ?s))) = f + d + n" by (rule l)
    show "(f + d + n) mod 7 = 0" by (rule m)
    show "n < 7" by (rule nb(2))
    show "0 \<le> n" by (rule nb(1))
  qed
qed

theorem grid_counts_fill_whole_weeks_witness:
  "(0::int) \<le> 11 \<and> (11::int) \<le> 11 \<and> month_valid line_islands 1994 11
   \<and> firstDayOfMonth line_islands 1994 11 = Some 4
   \<and> daysInMonth line_islands 1994 11 = Some 1
   \<and> nextMonthDaysNeeded line_islands 1994 11 = Some 2
   \<and> length (calendarGrid (renderCalendar line_islands 0
         \<lparr>currentYear = 1994, currentMonth = 11, staticEvents = staticEvents0,
          calendarGrid = [], modal_display = ''none'', addEventForm = form0\<rparr>)) = 7"
proof -
  have v: "month_valid line_islands 1994 11"
    by (simp add: month_valid_def in_range_def UTC_def line_islands_def make_date)
  have 1: "firstDayOfMonth line_islands 1994 11 = Some 4"
    by (simp add: firstDayOfMonth_valid [OF v] read_date line_islands_def make_date)
  have 2: "daysInMonth line_islands 1994 11 = Some 1"
    by (simp add: daysInMonth_valid [OF v] read_date line_islands_def make_date)
  have 3: "nextMonthDaysNeeded line_islands 1994 11 = Some 2"
    using nextMonthDaysNeeded_valid [OF 1 2] by simp
  have "int (length (calendarGrid (renderCalendar line_islands 0
         \<lparr>currentYear = 1994, currentMonth = 11, staticEvents = staticEvents0,
          calendarGrid = [], modal_display = ''none'', addEventForm = form0\<rparr>))) = 7"
    using grid_counts_fill_whole_weeks
      [of 11 line_islands 1994 0 staticEvents0 "[]" "''none''" form0] v 1 2 3
    by simp
  then show ?thesis using v 1 2 3 by simp
qed

lemma DayFromYear_mono: "a \<le> b \<Longrightarrow> DayFromYear a \<le> DayFromYear b"
  using DayFromYear_strict_mono [of a b] by (cases "a = b") simp_all

lemma MakeDay_in_year:
  assumes "0 \<le> m" "m \<le> 11"
  shows "DayFromYear y \<le> MakeDay y m 1" "MakeDay y m 1 < DayFromYear (y + 1)"
    "DayFromYear y \<le> MakeDay y (m + 1) 0" "MakeDay y (m + 1) 0 < DayFromYear (y + 1)"
proof -
  have a: "DayFromYear y \<le> MakeDay y m 1 \<and> MakeDay y m 1 < DayFromYear (y + 1)"
    unfolding MakeDay_month [OF assms] DayFromYear_step
    using month_cases [OF assms] DaysInYear_cases [of y]
    by (elim disjE) (simp_all add: DayFromMonth_def)
  have b: "DayFromYear y \<le> MakeDay y (m + 1) 0 \<and> MakeDay y (m + 1) 0 < DayFromYear (y + 1)"
  proof (cases "m = 11")
    case True
    then show ?thesis using DaysInYear_cases [of y] by (auto simp: MakeDay_12 DayFromYear_step)
  next
    case False
    then have m': "0 \<le> m + 1" "m + 1 \<le> 11" using assms by simp_all
    have cs: "m = 0 \<or> m = 1 \<or> m = 2 \<or> m = 3 \<or> m = 4 \<or> m = 5 \<or> m = 6 \<or> m = 7 \<or> m = 8
         \<or> m = 9 \<or> m = 10" using month_cases [OF assms] False by simp
    show ?thesis
      unfolding MakeDay_month [OF m'] DayFromYear_step
      using cs DaysInYear_cases [of y]
      by (elim disjE) (simp_all add: DayFromMonth_def)
  qed
  show "DayFromYear y \<le> MakeDay y m 1" "MakeDay y m 1 < DayFromYear (y + 1)"
    "DayFromYear y \<le> MakeDay y (m + 1) 0" "MakeDay y (m + 1) 0 < DayFromYear (y + 1)"
    using a b by simp_all
qed

text \<open>
  The months of the years from -271820 to 275759 are valid in every zone whose offsets
  are of a day at most.
\<close>

lemma month_valid_years:
  assumes y: "- 271820 \<le> year" "year \<le> 275759" and m: "0 \<le> month" "month \<le> 11"
    and tz: "\<And>t b. \<bar>tz t b\<bar> \<le> msPerDay"
  shows "month_valid tz year month"
proof -
  define Y where "Y = MakeFullYear year"
  have Y: "- 271820 \<le> Y" "Y + 1 \<le> 275760" using y by (auto simp: Y_def MakeFullYear_def)
  have lo: "- 99999999 \<le> DayFromYear Y"
    using DayFromYear_mono [OF Y(1)] by (simp add: DayFromYear_def)
  have hi: "DayFromYear (Y + 1) \<le> 99999999"
    using DayFromYear_mono [OF Y(2)] by (simp add: DayFromYear_def)
  have r: "\<bar>d * msPerDay - tz (d * msPerDay) False\<bar> \<le> 8640000000000000"
    if "- 99999999 \<le> d" "d \<le> 99999999" for d
  proof -
    have "\<bar>d * msPerDay\<bar> \<le> 99999999 * msPerDay"
      using that by (simp add: msPerDay_def abs_le_iff)
    then show ?thesis using tz [of "d * msPerDay" False] by (simp add: msPerDay_def)
  qed
  have "\<bar>UTC tz (local_midnight year month 1)\<bar> \<le> 8640000000000000"
    unfolding UTC_def local_midnight_def MakeDate_def Y_def [symmetric]
    using r [of "MakeDay Y month 1"] MakeDay_in_year [OF m, of Y] lo hi by simp
  moreover have "\<bar>UTC tz (local_midnight year (month + 1) 0)\<bar> \<le> 8640000000000000"
    unfolding UTC_def local_midnight_def MakeDate_def Y_def [symmetric]
    using r [of "MakeDay Y (month + 1) 0"] MakeDay_in_year [OF m, of Y] lo hi by simp
  ultimately show ?thesis by (simp add: month_valid_def in_range_def)
qed


text \<open>
  In a year from 0 to 99 the grid is laid out for the year 1900 later, which Date takes
  it for, while \<open>formatDate\<close> dates the cells with the year as it is.
\<close>

lemma two_digit_year_layout:
  "firstDayOfMonth utc 50 0 = Some 0" "spec_weekday_of_first 1950 0 = 0"
  "spec_weekday_of_first 50 0 = 6" "formatDate 50 0 (Some 1) = ''50-01-01''"
proof -
  have v: "month_valid utc 50 0"
    by (simp add: month_valid_def in_range_def UTC_def utc_def make_date)
  show "spec_weekday_of_first 1950 0 = 0" "spec_weekday_of_first 50 0 = 6"
    by (simp_all add: spec_weekday_of_first_def spec_days_before_year_eq
        spec_days_before_month_def DayFromYear_def)
  then show "firstDayOfMonth utc 50 0 = Some 0"
    by (simp add: firstDayOfMonth_spec [OF _ _ v month_unskipped_utc] MakeFullYear_def)
  show "formatDate 50 0 (Some 1) = ''50-01-01''"
    by (simp add: formatDate_def toString_def num_toString_def padStart_def digits.simps
        digit_char_def)
qed



section \<open>The events of a day and their flags\<close>

lemma filter_loop_eq: "filter_loop p xs kept = kept @ filter p xs"
  by (induction xs arbitrary: kept) simp_all

lemma Array_filter_eq: "Array_filter p xs = filter p xs"
  by (simp add: Array_filter_def filter_loop_eq)

lemma dayEvents_eq: "dayEvents evs ds = filter (\<lambda>e. date e = ds) evs"
  by (simp add: dayEvents_def Array_filter_eq)

text \<open>
  Claim C7. For every event list and date string, the events of the day are exactly
  the events whose date is that string, in the order of the list; the result is empty
  exactly when no event has that date. On the sample events, the day 2025-12-24 has the
  Holiday Party and nothing else.
\<close>

theorem dayEvents_selects_in_order:
  "dayEvents evs dateString = filter (\<lambda>e. date e = dateString) evs
   \<and> subseq (dayEvents evs dateString) evs
   \<and> (dayEvents evs dateString = []) = (dateString \<notin> date ` set evs)
   \<and> dayEvents staticEvents0 ''2025-12-24'' =
       [\<lparr>title = ''Holiday Party'', date = ''2025-12-24'', time = ''18:00'', duration = ''4h''\<rparr>]"
proof -
  have "(filter (\<lambda>e. date e = dateString) evs = []) = (dateString \<notin> date ` set evs)"
    by (auto simp: filter_empty_conv)
  moreover have "dayEvents staticEvents0 ''2025-12-24'' =
       [\<lparr>title = ''Holiday Party'', date = ''2025-12-24'', time = ''18:00'', duration = ''4h''\<rparr>]"
    by (simp add: dayEvents_eq staticEvents0_def)
  ultimately show ?thesis by (simp add: dayEvents_eq)
qed

lemma formatDate_25: "formatDate 2025 10 (Some 25) = ''2025-11-25''"
  by (simp add: formatDate_def toString_def num_toString_def padStart_def digits.simps
      digit_char_def)

lemma dayEvents_25:
  "dayEvents staticEvents0 ''2025-11-25'' =
     [\<lparr>title = ''Project Kickoff'', date = ''2025-11-25'', time = ''10:00'', duration = ''1h''\<rparr>,
      \<lparr>title = ''Team Review'', date = ''2025-11-25'', time = ''11:00'', duration = ''30m''\<rparr>,
      \<lparr>title = ''Client Presentation'', date = ''2025-11-25'', time = ''14:00'', duration = ''2h''\<rparr>]"
  by (simp add: dayEvents_eq staticEvents0_def)

lemma cell_events_active:
  "map div_classes (cell_events (createDateCell year month day False isPrevMonth isToday evs)) =
     replicate (length evs) (''event'' # spec_flag (spec_classify (length evs)))"
proof -
  have "div_classes (event_element (int (length evs)) e) =
          ''event'' # spec_flag (spec_classify (length evs))" for e
  proof -
    consider "length evs = 0" | "length evs = 1" | "length evs = 2" | "3 \<le> length evs"
      by linarith
    then show ?thesis
      by cases (auto simp: event_element_def spec_flag_def spec_classify_def)
  qed
  then show ?thesis
    by (simp add: createDateCell_def hasConflict_def comp_def map_replicate_const)
qed

text \<open>The cell the renderer builds for a day of the month, by its place in the grid.\<close>

lemma grid_nth_month:
  assumes f: "firstDayOfMonth tz y m = Some f" "0 \<le> f"
    and n: "daysInMonth tz y m = Some n" and d: "1 \<le> d" "d \<le> n"
  shows "(prev_cells tz y m @ month_cells tz t y m evs @ next_cells tz y m)
           ! nat (f + d - 1) =
         createDateCell y m (Some d) False False
           (Some d = getDate tz (Some t) \<and> Some m = getMonth tz (Some t)
            \<and> Some y = getFullYear tz (Some t))
           (dayEvents evs (formatDate y m (Some d)))"
proof -
  have lp: "length (prev_cells tz y m) = nat f"
    using f by (simp add: prev_cells_def loop_below_def)
  have lm: "length (month_cells tz t y m evs) = nat n"
    using d by (simp add: month_cells_def loop_upto_def n)
  have i: "nat (f + d - 1) = nat f + nat (d - 1)"
    using f d by (simp add: nat_add_distrib)
  have "(prev_cells tz y m @ month_cells tz t y m evs @ next_cells tz y m)
           ! nat (f + d - 1) = month_cells tz t y m evs ! nat (d - 1)"
    using d by (simp add: i nth_append lp lm)
  also have "\<dots> = createDateCell y m (Some d) False False
           (Some d = getDate tz (Some t) \<and> Some m = getMonth tz (Some t)
            \<and> Some y = getFullYear tz (Some t))
           (dayEvents evs (formatDate y m (Some d)))"
    using d by (simp add: month_cells_def loop_upto_def n Let_def)
  finally show ?thesis .
qed

text \<open>
  Claim C3. The flag of the events of an active day depends on their number only: every
  event element of the cell carries the class \<open>event\<close> and the flag of the classifier,
  which is nothing for no or one event, level 2 for exactly two and level 3 for three or
  more. The three sample events of 2025-11-25 are classified multiple, and in the grid
  of November 2025 the cell of the 25th shows the three of them with the level-3 flag
  (in UTC, and in every zone where the month is valid and unskipped).
\<close>

theorem conflict_flag_by_count:
  "map div_classes (cell_events (createDateCell year month day False isPrevMonth isToday evs)) =
     replicate (length evs) (''event'' # spec_flag (spec_classify (length evs)))
   \<and> spec_flag none = [] \<and> spec_flag single = []
   \<and> spec_flag double = [''conflict-level-2''] \<and> spec_flag multiple = [''conflict-level-3'']
   \<and> spec_classify (length (dayEvents staticEvents0 ''2025-11-25'')) = multiple
   \<and> map div_classes (cell_events (calendarGrid (renderCalendar utc today
        \<lparr>currentYear = 2025, currentMonth = 10, staticEvents = staticEvents0,
         calendarGrid = g, modal_display = disp, addEventForm = f\<rparr>) ! 30)) =
       [[''event'', ''conflict-level-3''], [''event'', ''conflict-level-3''],
        [''event'', ''conflict-level-3'']]
   \<and> (month_valid tz 2025 10 \<and> month_unskipped tz 2025 10 \<longrightarrow>
       map div_classes (cell_events (calendarGrid (renderCalendar tz today
        \<lparr>currentYear = 2025, currentMonth = 10, staticEvents = staticEvents0,
         calendarGrid = g, modal_display = disp, addEventForm = f\<rparr>) ! 30)) =
       [[''event'', ''conflict-level-3''], [''event'', ''conflict-level-3''],
        [''event'', ''conflict-level-3'']])"
proof -
  have three: "length (dayEvents staticEvents0 ''2025-11-25'') = 3"
    by (simp add: dayEvents_25)
  have gen: "map div_classes (cell_events (calendarGrid (renderCalendar z today
        \<lparr>currentYear = 2025, currentMonth = 10, staticEvents = staticEvents0,
         calendarGrid = g, modal_display = disp, addEventForm = f\<rparr>) ! 30)) =
       [[''event'', ''conflict-level-3''], [''event'', ''conflict-level-3''],
        [''event'', ''conflict-level-3'']]"
    if v: "month_valid z 2025 10" and k: "month_unskipped z 2025 10" for z
  proof -
    have fd: "firstDayOfMonth z 2025 10 = Some 6"
      using firstDayOfMonth_spec [OF _ _ v k] spec_november_2025
      by (simp add: MakeFullYear_def)
    have dm: "daysInMonth z 2025 10 = Some 30"
      using daysInMonth_spec [OF _ _ v k] spec_november_2025
      by (simp add: MakeFullYear_def)
    have "(prev_cells z 2025 10 @ month_cells z today 2025 10 staticEvents0
             @ next_cells z 2025 10) ! nat (6 + 25 - 1) =
         createDateCell 2025 10 (Some 25) False False
           (Some 25 = getDate z (Some today) \<and> Some 10 = getMonth z (Some today)
            \<and> Some 2025 = getFullYear z (Some today))
           (dayEvents staticEvents0 (formatDate 2025 10 (Some 25)))"
      by (rule grid_nth_month [OF fd _ dm]) simp_all
    then have cell: "calendarGrid (renderCalendar z today
        \<lparr>currentYear = 2025, currentMonth = 10, staticEvents = staticEvents0,
         calendarGrid = g, modal_display = disp, addEventForm = f\<rparr>) ! 30 =
         createDateCell 2025 10 (Some 25) False False
           (Some 25 = getDate z (Some today) \<and> Some 10 = getMonth z (Some today)
            \<and> Some 2025 = getFullYear z (Some today))
           (dayEvents staticEvents0 ''2025-11-25'')"
      by (simp add: renderCalendar_def formatDate_25)
    show ?thesis
      unfolding cell cell_events_active three
      by (simp add: spec_flag_def spec_classify_def numeral_3_eq_3)
  qed
  show ?thesis
    using gen [OF november_2025_utc(1) month_unskipped_utc] gen [of tz]
    by (simp add: cell_events_active three spec_flag_def spec_classify_def)
qed

theorem conflict_flag_by_count_witness:
  "month_valid utc 2025 10 \<and> month_unskipped utc 2025 10
   \<and> map div_classes (cell_events (calendarGrid (renderCalendar utc 0
        \<lparr>currentYear = 2025, currentMonth = 10, staticEvents = staticEvents0,
         calendarGrid = [], modal_display = ''none'', addEventForm = form0\<rparr>) ! 30)) =
       [[''event'', ''conflict-level-3''], [''event'', ''conflict-level-3''],
        [''event'', ''conflict-level-3'']]"
  using conflict_flag_by_count [of 2025 10 "Some 25" False False "[]" 0 "[]" "''none''" form0 utc]
    november_2025_utc(1) month_unskipped_utc
  by simp

section \<open>Navigation and the form\<close>

lemma renderCalendar_fields [simp]:
  "currentYear (renderCalendar tz today s) = currentYear s"
  "currentMonth (renderCalendar tz today s) = currentMonth s"
  "staticEvents (renderCalendar tz today s) = staticEvents s"
  "modal_display (renderCalendar tz today s) = modal_display s"
  "addEventForm (renderCalendar tz today s) = addEventForm s"
  by (simp_all add: renderCalendar_def)

lemma prev_fields:
  "currentMonth (prevMonthBtn_click tz today s) =
     (if currentMonth s - 1 < 0 then 11 else currentMonth s - 1)"
  "currentYear (prevMonthBtn_click tz today s) =
     (if currentMonth s - 1 < 0 then currentYear s - 1 else currentYear s)"
  "staticEvents (prevMonthBtn_click tz today s) = staticEvents s"
  "modal_display (prevMonthBtn_click tz today s) = modal_display s"
  "addEventForm (prevMonthBtn_click tz today s) = addEventForm s"
  by (simp_all add: prevMonthBtn_click_def Let_def)

lemma next_fields:
  "currentMonth (nextMonthBtn_click tz today s) =
     (if currentMonth s + 1 > 11 then 0 else currentMonth s + 1)"
  "currentYear (nextMonthBtn_click tz today s) =
     (if currentMonth s + 1 > 11 then currentYear s + 1 else currentYear s)"
  "staticEvents (nextMonthBtn_click tz today s) = staticEvents s"
  "modal_display (nextMonthBtn_click tz today s) = modal_display s"
  "addEventForm (nextMonthBtn_click tz today s) = addEventForm s"
  by (simp_all add: nextMonthBtn_click_def Let_def)

lemma submit_fields:
  "currentMonth (addEventForm_submit defaults tz today s) = currentMonth s"
  "currentYear (addEventForm_submit defaults tz today s) = currentYear s"
  "staticEvents (addEventForm_submit defaults tz today s) =
     staticEvents s @ [\<lparr>title = event_title (addEventForm s), date = event_date (addEventForm s),
                        time = event_time (addEventForm s),
                        duration = event_duration (addEventForm s)\<rparr>]"
  "modal_display (addEventForm_submit defaults tz today s) = ''none''"
  "addEventForm (addEventForm_submit defaults tz today s) = defaults"
  by (simp_all add: addEventForm_submit_def Let_def)

lemma other_handlers_view:
  "currentMonth (cell_click c s) = currentMonth s"
  "currentYear (cell_click c s) = currentYear s"
  "currentMonth (closeBtn_click s) = currentMonth s"
  "currentYear (closeBtn_click s) = currentYear s"
  "currentMonth (window_click b s) = currentMonth s"
  "currentYear (window_click b s) = currentYear s"
  by (simp_all add: cell_click_def closeBtn_click_def window_click_def split: option.splits)

lemma reachable_month_range:
  "reachable tz today defaults s \<Longrightarrow> 0 \<le> currentMonth s \<and> currentMonth s \<le> 11"
proof (induction rule: reachable.induct)
  case (loaded now1 now2 display0)
  then show ?case using MonthFromTime_range [of "LocalTime tz now2"] by (simp add: page_load_def)
next
  case (prev s)
  then show ?case by (simp add: prev_fields)
next
  case (nxt s)
  then show ?case by (simp add: next_fields)
next
  case (submit s)
  then show ?case by (simp add: submit_fields)
qed (simp_all add: other_handlers_view)

text \<open>Noon of 1 November 2025, UTC.\<close>

lemma november_noon:
  "MonthFromTime (LocalTime utc 1761998400000) = 10"
  "YearFromTime (LocalTime utc 1761998400000) = 2025"
  by (simp_all add: read_date utc_def DayFromYear_def DaysInYear_def msPerDay_def Let_def)

text \<open>
  Claim C9. In every state the page can reach, the month is from 0 to 11. The previous
  button takes one from the month, going from month 0 to month 11 of the year before;
  the next button adds one, going from month 11 to month 0 of the year after; the year
  is otherwise unchanged, and so are the event list, the modal and the form. Both lead
  to a reachable state again.
\<close>

theorem navigation_wraps_month:
  assumes "reachable tz today defaults s"
  shows "0 \<le> currentMonth s \<and> currentMonth s \<le> 11
    \<and> currentMonth (prevMonthBtn_click tz today s) =
        (if currentMonth s = 0 then 11 else currentMonth s - 1)
    \<and> currentYear (prevMonthBtn_click tz today s) =
        (if currentMonth s = 0 then currentYear s - 1 else currentYear s)
    \<and> currentMonth (nextMonthBtn_click tz today s) =
        (if currentMonth s = 11 then 0 else currentMonth s + 1)
    \<and> currentYear (nextMonthBtn_click tz today s) =
        (if currentMonth s = 11 then currentYear s + 1 else currentYear s)
    \<and> staticEvents (prevMonthBtn_click tz today s) = staticEvents s
    \<and> modal_display (prevMonthBtn_click tz today s) = modal_display s
    \<and> addEventForm (prevMonthBtn_click tz today s) = addEventForm s
    \<and> staticEvents (nextMonthBtn_click tz today s) = staticEvents s
    \<and> modal_display (nextMonthBtn_click tz today s) = modal_display s
    \<and> addEventForm (nextMonthBtn_click tz today s) = addEventForm s
    \<and> reachable tz today defaults (prevMonthBtn_click tz today s)
    \<and> reachable tz today defaults (nextMonthBtn_click tz today s)"
  using reachable_month_range [OF assms] reachable.prev [OF assms] reachable.nxt [OF assms]
  by (auto simp: prev_fields next_fields)

theorem navigation_wraps_month_witness:
  "reachable utc 1761998400000 form0
     (page_load utc 1761998400000 1761998400000 1761998400000 ''none'' form0)
   \<and> currentMonth (page_load utc 1761998400000 1761998400000 1761998400000 ''none'' form0) = 10
   \<and> currentMonth (nextMonthBtn_click utc 1761998400000
        (page_load utc 1761998400000 1761998400000 1761998400000 ''none'' form0)) = 11
   \<and> currentYear (nextMonthBtn_click utc 1761998400000
        (page_load utc 1761998400000 1761998400000 1761998400000 ''none'' form0)) = 2025
   \<and> currentMonth (prevMonthBtn_click utc 1761998400000
        (page_load utc 1761998400000 1761998400000 1761998400000 ''none'' form0)) = 9"
proof -
  have r: "reachable utc 1761998400000 form0
     (page_load utc 1761998400000 1761998400000 1761998400000 ''none'' form0)"
    by (rule reachable.loaded)
  have m: "currentMonth (page_load utc 1761998400000 1761998400000 1761998400000 ''none'' form0)
             = 10"
    "currentYear (page_load utc 1761998400000 1761998400000 1761998400000 ''none'' form0)
             = 2025"
    by (simp_all add: page_load_def november_noon)
  show ?thesis
    using navigation_wraps_month [OF r] r m by simp
qed

text \<open>
  Claim C4, as stated: a submission with an empty date or an empty title leaves the form
  as it is, open, and adds no event. The handler has no such check. Submitted with an
  empty title, it adds the event, puts the form back to its defaults and hides the
  modal.
\<close>

theorem submit_incomplete_form_counterexample:
  "event_title (addEventForm
      \<lparr>currentYear = 2025, currentMonth = 10, staticEvents = staticEvents0,
       calendarGrid = [], modal_display = ''block'',
       addEventForm = \<lparr>event_title = [], event_date = ''2025-11-25'',
                        event_time = ''10:00'', event_duration = ''1h''\<rparr>\<rparr>) = []
   \<and> staticEvents (addEventForm_submit form0 utc 1761998400000
      \<lparr>currentYear = 2025, currentMonth = 10, staticEvents = staticEvents0,
       calendarGrid = [], modal_display = ''block'',
       addEventForm = \<lparr>event_title = [], event_date = ''2025-11-25'',
                        event_time = ''10:00'', event_duration = ''1h''\<rparr>\<rparr>) =
     staticEvents0 @ [\<lparr>title = [], date = ''2025-11-25'', time = ''10:00'', duration = ''1h''\<rparr>]
   \<and> modal_display (addEventForm_submit form0 utc 1761998400000
      \<lparr>currentYear = 2025, currentMonth = 10, staticEvents = staticEvents0,
       calendarGrid = [], modal_display = ''block'',
       addEventForm = \<lparr>event_title = [], event_date = ''2025-11-25'',
                        event_time = ''10:00'', event_duration = ''1h''\<rparr>\<rparr>) = ''none''
   \<and> addEventForm (addEventForm_submit form0 utc 1761998400000
      \<lparr>currentYear = 2025, currentMonth = 10, staticEvents = staticEvents0,
       calendarGrid = [], modal_display = ''block'',
       addEventForm = \<lparr>event_title = [], event_date = ''2025-11-25'',
                        event_time = ''10:00'', event_duration = ''1h''\<rparr>\<rparr>) = form0"
  by (simp add: submit_fields)

text \<open>
  Claim C4, amended. The submit handler checks no field: whatever the form holds, an
  empty date or title too, it appends the event made of the four fields to the event
  list, puts the form back to its defaults and hides the modal.
\<close>

theorem submit_always_adds_and_closes:
  "staticEvents (addEventForm_submit defaults tz today s) =
     staticEvents s @ [\<lparr>title = event_title (addEventForm s), date = event_date (addEventForm s),
                        time = event_time (addEventForm s),
                        duration = event_duration (addEventForm s)\<rparr>]
   \<and> addEventForm (addEventForm_submit defaults tz today s) = defaults
   \<and> modal_display (addEventForm_submit defaults tz today s) = ''none''
   \<and> length (staticEvents (addEventForm_submit defaults tz today s)) = length (staticEvents s) + 1"
  by (simp add: submit_fields)

section \<open>Properties of the events service\<close>

lemma truthy_iff: "truthy v \<longleftrightarrow> v \<notin> spec_falsy"
  by (cases v) (auto simp: truthy_def spec_falsy_def)

lemma remove_first_absent: "i \<notin> doc_id ` set xs \<Longrightarrow> remove_first i xs = xs"
  by (induction xs) auto

lemma remove_first_set_distinct:
  "distinct (map doc_id xs) \<Longrightarrow> set (remove_first i xs) = {x \<in> set xs. doc_id x \<noteq> i}"
  by (induction xs) (auto simp: remove_first_absent)

lemma remove_first_subset: "set (remove_first i xs) \<subseteq> set xs"
  by (induction xs) auto

lemma remove_first_distinct:
  "distinct (map doc_id xs) \<Longrightarrow> distinct (map doc_id (remove_first i xs))"
proof (induction xs)
  case Nil
  then show ?case by simp
next
  case (Cons x xs)
  then show ?case using remove_first_subset [of i xs] by auto
qed

lemma remove_first_length:
  "i \<in> doc_id ` set xs \<Longrightarrow> length (remove_first i xs) + 1 = length xs"
  by (induction xs) auto

text \<open>The three handlers, by the case that decides the response.\<close>

lemma get_events_cases:
  "get_events q c =
     (if \<not> available c then ((500, Error ''Failed to fetch events''), c)
      else if q \<noteq> None \<and> q \<noteq> Some []
      then ((200, Events (sort_key (\<lambda>x. sort_value_key (doc_date x))
                            (filter (\<lambda>x. bson_match (the q) (doc_date x)) (docs c)))), c)
      else ((200, Events (sort_key (\<lambda>x. sort_value_key (doc_date x)) (docs c))), c))"
  by (cases q)
     (simp_all add: get_events_def find_sort_date_def Let_def truthy_def param_value_def)

lemma post_events_cases:
  "post_events now new_id b c =
     (if \<not> destructurable b then ((500, Error ''Failed to add event''), c)
      else if \<not> truthy (property b ''date'') \<or> \<not> truthy (property b ''title'')
      then ((400, Error ''date and title are required''), c)
      else if \<not> available c \<or> new_id \<in> doc_id ` set (docs c)
      then ((500, Error ''Failed to add event''), c)
      else ((201, Created (posted_doc now new_id b)),
            c\<lparr>docs := docs c @ [posted_doc now new_id b]\<rparr>))"
  by (simp add: post_events_def insertOne_def Let_def posted_doc_def)

lemma delete_event_cases:
  "delete_event id_param c =
     (case ObjectId_new id_param of
        Inl err \<Rightarrow> ((500, Error ''Failed to delete event''), c)
      | Inr i \<Rightarrow>
          if \<not> available c then ((500, Error ''Failed to delete event''), c)
          else if i \<in> doc_id ` set (docs c)
          then ((200, Message ''Event deleted''), c\<lparr>docs := remove_first i (docs c)\<rparr>)
          else ((404, Error ''Event not found''), c))"
  by (simp add: delete_event_def deleteOne_def split: sum.splits)

lemma get_events_store: "snd (get_events q c) = c"
  by (simp add: get_events_cases)

lemma posted_doc_description: "doc_description (posted_doc now new_id b) \<noteq> JUndefined"
  by (auto simp: posted_doc_def truthy_def)

lemma post_events_store:
  "snd (post_events now new_id b c) = c \<or>
   (new_id \<notin> doc_id ` set (docs c) \<and>
    (\<exists>d. doc_id d = new_id \<and> doc_description d \<noteq> JUndefined \<and>
       snd (post_events now new_id b c) = c\<lparr>docs := docs c @ [d]\<rparr>))"
proof (cases "snd (post_events now new_id b c) = c")
  case True
  then show ?thesis by simp
next
  case False
  then have "new_id \<notin> doc_id ` set (docs c)"
    and "snd (post_events now new_id b c) = c\<lparr>docs := docs c @ [posted_doc now new_id b]\<rparr>"
    by (auto simp: post_events_cases split: if_splits)
  moreover have "doc_id (posted_doc now new_id b) = new_id"
    by (simp add: posted_doc_def)
  ultimately show ?thesis using posted_doc_description by blast
qed

lemma delete_event_store:
  "snd (delete_event i c) = c \<or>
   (\<exists>j. snd (delete_event i c) = c\<lparr>docs := remove_first j (docs c)\<rparr>)"
  by (auto simp: delete_event_cases split: sum.splits)

text \<open>
  What every store of the service satisfies: no two documents share an \<open>_id\<close>, and every
  document has a description.
\<close>

lemma served_invariant:
  "served c \<Longrightarrow>
   distinct (map doc_id (docs c)) \<and> (\<forall>x \<in> set (docs c). doc_description x \<noteq> JUndefined)"
proof (induction rule: served.induct)
  case (empty a)
  then show ?case by simp
next
  case (outage c a)
  then show ?case by simp
next
  case (got c q)
  then show ?case by (simp add: get_events_store)
next
  case (posted c now new_id b)
  then show ?case using post_events_store [of now new_id b c] by auto
next
  case (deleted c i)
  then show ?case
    using delete_event_store [of i c] remove_first_distinct remove_first_subset by fastforce
qed

text \<open>The sample request, identifiers and stores.\<close>

lemma standup_fields:
  "destructurable standup" "property standup ''date'' = JStr ''2025-12-01''"
  "property standup ''title'' = JStr ''Standup''" "property standup ''description'' = JUndefined"
  by (simp_all add: standup_def destructurable_def property_def)

lemma post_standup:
  "post_events 1764547200000 oid0 standup store0 = ((201, Created standup_doc), store1)"
  by (simp add: post_events_cases standup_fields store0_def store1_def truthy_def posted_doc_def
      standup_doc_def)

lemma served_store1: "served store1"
proof -
  have "served store0" unfolding store0_def by (rule served.empty)
  then have "served (snd (post_events 1764547200000 oid0 standup store0))"
    by (rule served.posted)
  then show ?thesis by (simp add: post_standup)
qed

lemma ObjectId_abc: "ObjectId_new ''abc'' = Inl BSONError"
  by (simp add: ObjectId_new_def)

lemma ObjectId_oid0: "ObjectId_new ''65a1b2c3d4e5f60718293a4b'' = Inr oid0"
  by (simp add: ObjectId_new_def oid0_def is_hex_def)

lemma ObjectId_zero:
  "ObjectId_new ''000000000000000000000000'' = Inr (replicate 24 0)"
  "replicate 24 0 \<noteq> oid0"
  by (simp_all add: ObjectId_new_def oid0_def is_hex_def hex_value_def eval_nat_numeral)

text \<open>
  Claim C5, as stated: the answer is 400 exactly when the date or the title is absent
  or empty. A date that is the number 0 is there and is no empty string, and the answer
  is 400; and a request of which no body was parsed has neither date nor title, and the
  answer is 500.
\<close>

theorem post_events_falsy_date_counterexample:
  "property (JObj [(''date'', JNum (Finite 0)), (''title'', JStr ''Standup'')]) ''date''
     = JNum (Finite 0)
   \<and> property (JObj [(''date'', JNum (Finite 0)), (''title'', JStr ''Standup'')]) ''title''
     = JStr ''Standup''
   \<and> post_events 1764547200000 oid0
       (JObj [(''date'', JNum (Finite 0)), (''title'', JStr ''Standup'')]) store0
     = ((400, Error ''date and title are required''), store0)
   \<and> post_events 1764547200000 oid0 JUndefined store0
     = ((500, Error ''Failed to add event''), store0)"
  by (simp add: post_events_cases destructurable_def property_def truthy_def)

text \<open>
  Claim C5, amended. For a request with a parsed body, creating an event answers 400
  with the error \<open>date and title are required\<close> exactly when the date or the title is
  falsy (absent, null, false, the number 0 or the empty string), and then the store is
  as it was. When it answers 201, the body is the stored document, with the identifier
  the store gave it, the creation time and the date and title of the request, and the
  document is the last of the store; it answers 201 exactly when the date and title are
  truthy, the store is reachable and the identifier is new.
\<close>

theorem post_events_validates:
  assumes "destructurable req_body"
  shows "(fst (post_events now new_id req_body c) = (400, Error ''date and title are required''))
     = (property req_body ''date'' \<in> spec_falsy \<or> property req_body ''title'' \<in> spec_falsy)
   \<and> (fst (fst (post_events now new_id req_body c)) = 400)
     = (property req_body ''date'' \<in> spec_falsy \<or> property req_body ''title'' \<in> spec_falsy)
   \<and> (fst (fst (post_events now new_id req_body c)) = 400 \<longrightarrow>
        snd (post_events now new_id req_body c) = c)
   \<and> (fst (fst (post_events now new_id req_body c)) = 201 \<longrightarrow>
        (\<exists>d. snd (fst (post_events now new_id req_body c)) = Created d
           \<and> doc_id d = new_id \<and> doc_createdAt d = now
           \<and> doc_date d = property req_body ''date''
           \<and> doc_title d = property req_body ''title''
           \<and> docs (snd (post_events now new_id req_body c)) = docs c @ [d]))
   \<and> (fst (fst (post_events now new_id req_body c)) = 201) =
       (property req_body ''date'' \<notin> spec_falsy \<and> property req_body ''title'' \<notin> spec_falsy
        \<and> available c \<and> new_id \<notin> doc_id ` set (docs c))"
proof -
  let ?r = "post_events now new_id req_body c"
  let ?bad = "property req_body ''date'' \<in> spec_falsy \<or> property req_body ''title'' \<in> spec_falsy"
  have v: "(\<not> truthy (property req_body ''date'') \<or> \<not> truthy (property req_body ''title''))
           = ?bad"
    by (simp add: truthy_iff)
  have 1: "(fst ?r = (400, Error ''date and title are required'')) = ?bad"
    unfolding v [symmetric] using assms by (simp add: post_events_cases)
  have 2: "(fst (fst ?r) = 400) = ?bad"
    unfolding v [symmetric] using assms by (simp add: post_events_cases)
  have 3: "fst (fst ?r) = 400 \<longrightarrow> snd ?r = c"
    by (simp add: post_events_cases)
  have 5: "(fst (fst ?r) = 201) =
       (property req_body ''date'' \<notin> spec_falsy \<and> property req_body ''title'' \<notin> spec_falsy
        \<and> available c \<and> new_id \<notin> doc_id ` set (docs c))"
    using assms by (auto simp: post_events_cases truthy_iff)
  have 4: "fst (fst ?r) = 201 \<longrightarrow>
        (\<exists>d. snd (fst ?r) = Created d
           \<and> doc_id d = new_id \<and> doc_createdAt d = now
           \<and> doc_date d = property req_body ''date''
           \<and> doc_title d = property req_body ''title''
           \<and> docs (snd ?r) = docs c @ [d])"
  proof
    assume "fst (fst ?r) = 201"
    then have "snd (fst ?r) = Created (posted_doc now new_id req_body)"
      "docs (snd ?r) = docs c @ [posted_doc now new_id req_body]"
      by (simp_all add: post_events_cases split: if_splits)
    moreover have "doc_id (posted_doc now new_id req_body) = new_id"
      "doc_createdAt (posted_doc now new_id req_body) = now"
      "doc_date (posted_doc now new_id req_body) = property req_body ''date''"
      "doc_title (posted_doc now new_id req_body) = property req_body ''title''"
      by (simp_all add: posted_doc_def)
    ultimately show "\<exists>d. snd (fst ?r) = Created d
           \<and> doc_id d = new_id \<and> doc_createdAt d = now
           \<and> doc_date d = property req_body ''date''
           \<and> doc_title d = property req_body ''title''
           \<and> docs (snd ?r) = docs c @ [d]"
      by blast
  qed
  from 1 2 3 4 5 show ?thesis by blast
qed

theorem post_events_validates_witness:
  "destructurable standup
   \<and> post_events 1764547200000 oid0 standup store0 = ((201, Created standup_doc), store1)
   \<and> destructurable (JObj [(''date'', JStr ''2025-12-01''), (''title'', JStr [])])
   \<and> fst (post_events 1764547200000 oid0
        (JObj [(''date'', JStr ''2025-12-01''), (''title'', JStr [])]) store0) =
       (400, Error ''date and title are required'')
   \<and> snd (post_events 1764547200000 oid0
        (JObj [(''date'', JStr ''2025-12-01''), (''title'', JStr [])]) store0) = store0"
proof -
  let ?b = "JObj [(''date'', JStr ''2025-12-01''), (''title'', JStr [])]"
  have d: "destructurable ?b" by (simp add: destructurable_def)
  have t: "property ?b ''title'' \<in> spec_falsy" by (simp add: property_def spec_falsy_def)
  have "fst (post_events 1764547200000 oid0 ?b store0) =
       (400, Error ''date and title are required'')
    \<and> snd (post_events 1764547200000 oid0 ?b store0) = store0"
    using post_events_validates [OF d, of 1764547200000 oid0 store0] t by simp
  then show ?thesis using d standup_fields(1) post_standup by simp
qed

text \<open>On a store whose dates are strings, the store's order is the order of the strings.\<close>

lemma string_date_key: "sort_value_key (JStr s) = (3, 0, 0, s)"
  by (simp add: sort_value_key_def value_key_def)

lemma string_date_le:
  assumes "doc_date x = JStr s" "doc_date y = JStr t"
  shows "(sort_value_key (doc_date x) \<le> sort_value_key (doc_date y)) =
         (date_string x \<le> date_string y)"
  using assms by (simp add: string_date_key date_string_def)

lemma insort_string_dates:
  assumes "doc_date x = JStr s" "\<forall>y \<in> set xs. \<exists>t. doc_date y = JStr t"
  shows "insort_key (\<lambda>x. sort_value_key (doc_date x)) x xs = insort_key date_string x xs"
  using assms(2)
proof (induction xs)
  case Nil
  then show ?case by simp
next
  case (Cons y ys)
  then obtain t where t: "doc_date y = JStr t" by auto
  show ?case using Cons string_date_le [OF assms(1) t] by simp
qed

lemma sort_string_dates:
  "\<forall>y \<in> set xs. \<exists>t. doc_date y = JStr t \<Longrightarrow>
   sort_key (\<lambda>x. sort_value_key (doc_date x)) xs = sort_key date_string xs"
proof (induction xs)
  case Nil
  then show ?case by simp
next
  case (Cons x xs)
  then obtain s where s: "doc_date x = JStr s" by auto
  have "\<forall>y \<in> set (sort_key date_string xs). \<exists>t. doc_date y = JStr t"
    using Cons.prems by simp
  then show ?case using Cons insort_string_dates [OF s] by simp
qed

lemma is_string_iff: "(case v of JStr s \<Rightarrow> True | _ \<Rightarrow> False) = (\<exists>t. v = JStr t)"
  by (cases v) simp_all

lemma string_dates_iff:
  "string_dates c = (\<forall>y \<in> set (docs c). \<exists>t. doc_date y = JStr t)"
  by (simp add: string_dates_def list_all_iff is_string_iff)

lemma filter_string_dates:
  "\<forall>y \<in> set xs. \<exists>t. doc_date y = JStr t \<Longrightarrow>
   filter (\<lambda>x. bson_match d (doc_date x)) xs = filter (\<lambda>x. doc_date x = JStr d) xs"
  by (rule filter_cong) (auto simp: bson_match_def)

text \<open>
  Claim C10. In every store of the service each document has a description. When a
  request without a description is answered 201, the description of the document in
  the response and in the store is the empty string.
\<close>

theorem post_events_defaults_description:
  assumes "served c"
  shows "(\<forall>x \<in> set (docs c). doc_description x \<noteq> JUndefined)
   \<and> (property req_body ''description'' = JUndefined \<longrightarrow>
        fst (fst (post_events now new_id req_body c)) = 201 \<longrightarrow>
        (\<exists>d. snd (fst (post_events now new_id req_body c)) = Created d
           \<and> doc_description d = JStr []
           \<and> docs (snd (post_events now new_id req_body c)) = docs c @ [d]))"
proof -
  have "\<exists>d. snd (fst (post_events now new_id req_body c)) = Created d
           \<and> doc_description d = JStr []
           \<and> docs (snd (post_events now new_id req_body c)) = docs c @ [d]"
    if n: "property req_body ''description'' = JUndefined"
      and s: "fst (fst (post_events now new_id req_body c)) = 201"
  proof -
    have "doc_description (posted_doc now new_id req_body) = JStr []"
      using n by (simp add: posted_doc_def truthy_def)
    moreover have
      "snd (fst (post_events now new_id req_body c)) = Created (posted_doc now new_id req_body)"
      "docs (snd (post_events now new_id req_body c)) = docs c @ [posted_doc now new_id req_body]"
      using s by (simp_all add: post_events_cases split: if_splits)
    ultimately show ?thesis by blast
  qed
  then show ?thesis using served_invariant [OF assms] by blast
qed

theorem post_events_defaults_description_witness:
  "served store0 \<and> property standup ''description'' = JUndefined
   \<and> fst (fst (post_events 1764547200000 oid0 standup store0)) = 201
   \<and> snd (fst (post_events 1764547200000 oid0 standup store0)) = Created standup_doc
   \<and> doc_description standup_doc = JStr []
   \<and> docs (snd (post_events 1764547200000 oid0 standup store0)) = [standup_doc]"
proof -
  have s: "served store0" unfolding store0_def by (rule served.empty)
  have n: "property standup ''description'' = JUndefined" by (rule standup_fields(4))
  show ?thesis
    using post_events_defaults_description [OF s, of standup 1764547200000 oid0] s n
    by (simp add: post_standup store1_def standup_doc_def)
qed

text \<open>
  Claim C6, as stated: an identifier that resolves to no document is answered 404. The
  identifier \<open>abc\<close> resolves to no document of the empty store, but it is not an
  \<open>ObjectId\<close>: the constructor throws and the answer is 500.
\<close>

theorem delete_event_malformed_id_counterexample:
  "ObjectId_new ''abc'' = Inl BSONError
   \<and> delete_event ''abc'' \<lparr>docs = [], available = True\<rparr> =
       ((500, Error ''Failed to delete event''), \<lparr>docs = [], available = True\<rparr>)"
  by (simp add: delete_event_cases ObjectId_abc)

text \<open>
  Claim C6, amended. On a reachable store, where no two documents share an \<open>_id\<close> (as
  in every store of the service): an identifier that is no
  \<open>ObjectId\<close> is answered 500 with \<open>Failed to delete event\<close> and the store is as it was;
  an \<open>ObjectId\<close> that no document has is answered 404 with \<open>Event not found\<close> and the
  store is as it was; an \<open>ObjectId\<close> that a document has is answered 200 with
  \<open>Event deleted\<close>, and then the store has one document less, the others as before and
  none with that identifier.
\<close>

theorem delete_event_outcomes:
  assumes "distinct (map doc_id (docs c))" "available c"
  shows "(ObjectId_new id_param = Inl BSONError \<longrightarrow>
            delete_event id_param c = ((500, Error ''Failed to delete event''), c))
   \<and> (\<forall>i. ObjectId_new id_param = Inr i \<longrightarrow>
         (i \<notin> doc_id ` set (docs c) \<longrightarrow>
            delete_event id_param c = ((404, Error ''Event not found''), c))
       \<and> (i \<in> doc_id ` set (docs c) \<longrightarrow>
            fst (delete_event id_param c) = (200, Message ''Event deleted'')
            \<and> i \<notin> doc_id ` set (docs (snd (delete_event id_param c)))
            \<and> set (docs (snd (delete_event id_param c))) = {x \<in> set (docs c). doc_id x \<noteq> i}
            \<and> length (docs (snd (delete_event id_param c))) + 1 = length (docs c)))"
proof -
  have d: "distinct (map doc_id (docs c))" by (rule assms(1))
  have 1: "ObjectId_new id_param = Inl BSONError \<longrightarrow>
            delete_event id_param c = ((500, Error ''Failed to delete event''), c)"
    by (simp add: delete_event_cases)
  have 2: "i \<notin> doc_id ` set (docs c) \<longrightarrow>
            delete_event id_param c = ((404, Error ''Event not found''), c)"
    if "ObjectId_new id_param = Inr i" for i
    using that assms(2) by (simp add: delete_event_cases)
  have 3: "i \<in> doc_id ` set (docs c) \<longrightarrow>
            fst (delete_event id_param c) = (200, Message ''Event deleted'')
            \<and> i \<notin> doc_id ` set (docs (snd (delete_event id_param c)))
            \<and> set (docs (snd (delete_event id_param c))) = {x \<in> set (docs c). doc_id x \<noteq> i}
            \<and> length (docs (snd (delete_event id_param c))) + 1 = length (docs c)"
    if "ObjectId_new id_param = Inr i" for i
  proof
    assume i: "i \<in> doc_id ` set (docs c)"
    then have e: "delete_event id_param c =
        ((200, Message ''Event deleted''), c\<lparr>docs := remove_first i (docs c)\<rparr>)"
      using that assms(2) by (simp add: delete_event_cases)
    have s: "set (remove_first i (docs c)) = {x \<in> set (docs c). doc_id x \<noteq> i}"
      by (rule remove_first_set_distinct [OF d])
    then have "i \<notin> doc_id ` set (remove_first i (docs c))" by auto
    then show "fst (delete_event id_param c) = (200, Message ''Event deleted'')
            \<and> i \<notin> doc_id ` set (docs (snd (delete_event id_param c)))
            \<and> set (docs (snd (delete_event id_param c))) = {x \<in> set (docs c). doc_id x \<noteq> i}
            \<and> length (docs (snd (delete_event id_param c))) + 1 = length (docs c)"
      using s remove_first_length [OF i] by (simp add: e)
  qed
  from 1 2 3 show ?thesis by blast
qed

theorem delete_event_outcomes_witness:
  "distinct (map doc_id (docs store1)) \<and> available store1
   \<and> delete_event ''65a1b2c3d4e5f60718293a4b'' store1 = ((200, Message ''Event deleted''), store0)
   \<and> delete_event ''000000000000000000000000'' store1 = ((404, Error ''Event not found''), store1)
   \<and> delete_event ''abc'' store1 = ((500, Error ''Failed to delete event''), store1)"
proof -
  have a: "available store1" by (simp add: store1_def)
  have u: "distinct (map doc_id (docs store1))" by (simp add: store1_def)
  have 1: "delete_event ''abc'' store1 = ((500, Error ''Failed to delete event''), store1)"
    using delete_event_outcomes [OF u a, of "''abc''"] by (simp add: ObjectId_abc)
  have 2: "delete_event ''000000000000000000000000'' store1 =
      ((404, Error ''Event not found''), store1)"
    using delete_event_outcomes [OF u a, of "''000000000000000000000000''"]
      ObjectId_zero
    by (simp add: store1_def standup_doc_def)
  have 3: "delete_event ''65a1b2c3d4e5f60718293a4b'' store1 =
      ((200, Message ''Event deleted''), store0)"
    by (simp add: delete_event_cases ObjectId_oid0 store1_def store0_def standup_doc_def)
  from u a 1 2 3 show ?thesis by simp
qed

text \<open>
  Claim C8, as stated: with a date parameter, only the events of that date are
  listed. An empty parameter is a parameter, and no event has the empty date, but the
  list is that of all events.
\<close>

theorem get_events_empty_date_counterexample:
  "get_events (Some []) store1 = ((200, Events [standup_doc]), store1)
   \<and> doc_date standup_doc = JStr ''2025-12-01''"
  by (simp add: get_events_cases store1_def standup_doc_def)

text \<open>
  Claim C8, amended. On a reachable store whose events have strings as dates: with a
  date parameter that is not empty, the answer is 200 with exactly the events of that
  date; without the parameter, or with an empty one, it is 200 with all events, in
  ascending order of their dates; on an empty store, and for a date that no event has,
  it is 200 with the empty list.
\<close>

theorem get_events_lists_by_date:
  assumes "available c" "string_dates c"
  shows "(d \<noteq> [] \<longrightarrow>
            get_events (Some d) c =
              ((200, Events (sort_key date_string
                               (filter (\<lambda>x. doc_date x = JStr d) (docs c)))), c))
   \<and> mset (sort_key date_string (filter (\<lambda>x. doc_date x = JStr d) (docs c))) =
       filter_mset (\<lambda>x. doc_date x = JStr d) (mset (docs c))
   \<and> get_events None c = ((200, Events (sort_key date_string (docs c))), c)
   \<and> get_events (Some []) c = ((200, Events (sort_key date_string (docs c))), c)
   \<and> mset (sort_key date_string (docs c)) = mset (docs c)
   \<and> sorted (map date_string (sort_key date_string (docs c)))
   \<and> (docs c = [] \<longrightarrow> get_events q c = ((200, Events []), c))
   \<and> (d \<noteq> [] \<and> JStr d \<notin> doc_date ` set (docs c) \<longrightarrow>
         get_events (Some d) c = ((200, Events []), c))"
proof -
  have s: "\<forall>y \<in> set (docs c). \<exists>t. doc_date y = JStr t"
    using assms(2) by (simp add: string_dates_iff)
  then have f: "\<forall>y \<in> set (filter (\<lambda>x. doc_date x = JStr d) (docs c)). \<exists>t. doc_date y = JStr t"
    by simp
  have 1: "d \<noteq> [] \<longrightarrow>
            get_events (Some d) c =
              ((200, Events (sort_key date_string
                               (filter (\<lambda>x. doc_date x = JStr d) (docs c)))), c)"
    using assms(1) by (simp add: get_events_cases filter_string_dates [OF s]
        sort_string_dates [OF f])
  have 2: "get_events None c = ((200, Events (sort_key date_string (docs c))), c)"
    "get_events (Some []) c = ((200, Events (sort_key date_string (docs c))), c)"
    using assms(1) by (simp_all add: get_events_cases sort_string_dates [OF s])
  have 3: "docs c = [] \<longrightarrow> get_events q c = ((200, Events []), c)"
    using assms(1) by (simp add: get_events_cases)
  have "filter (\<lambda>x. doc_date x = JStr d) (docs c) = []"
    if n: "JStr d \<notin> doc_date ` set (docs c)"
  proof -
    have "\<forall>x \<in> set (docs c). doc_date x \<noteq> JStr d" using n by (metis imageI)
    then show ?thesis by (simp add: filter_empty_conv)
  qed
  then have 4: "d \<noteq> [] \<and> JStr d \<notin> doc_date ` set (docs c) \<longrightarrow>
         get_events (Some d) c = ((200, Events []), c)"
    using 1 by simp
  from 1 2 3 4 show ?thesis by simp
qed

theorem get_events_lists_by_date_witness:
  "available store1 \<and> string_dates store1
   \<and> get_events (Some ''2025-12-01'') store1 = ((200, Events [standup_doc]), store1)
   \<and> get_events (Some ''2025-12-02'') store1 = ((200, Events []), store1)
   \<and> get_events None store0 = ((200, Events []), store0)"
proof -
  have a: "available store1" "available store0" by (simp_all add: store1_def store0_def)
  have t: "string_dates store1" "string_dates store0"
    by (simp_all add: string_dates_def store1_def store0_def standup_doc_def)
  have 1: "get_events (Some ''2025-12-01'') store1 = ((200, Events [standup_doc]), store1)"
    using get_events_lists_by_date [OF a(1) t(1), of "''2025-12-01''"]
    by (simp add: store1_def standup_doc_def)
  have 2: "get_events (Some ''2025-12-02'') store1 = ((200, Events []), store1)"
    using get_events_lists_by_date [OF a(1) t(1), of "''2025-12-02''"]
    by (simp add: store1_def standup_doc_def)
  have 3: "get_events None store0 = ((200, Events []), store0)"
    using get_events_lists_by_date [OF a(2) t(2)] by (simp add: store0_def)
  from a t(1) 1 2 3 show ?thesis by simp
qed

end
